theory Spec2Isabelle
  imports Main "HOL-Library.Word"
begin

unbundle bit_operations_syntax

text \<open>
  A model of the chaos downloader, a Go program that fetches a JSON index of named
  archives, downloads and extracts the selected ones below \<open>./AllChaosData\<close>, and
  concatenates every \<open>.txt\<close> file it finds there into \<open>./everything.txt\<close>.

  The repository holds two versions of the program. The functions below follow the
  later one, which has the flags \<open>-c\<close>, \<open>-i\<close>, \<open>-a\<close> and \<open>-h\<close> and counts the processed
  entries; \<open>readCompanyList\<close>, \<open>downloadAndUnzip\<close>, \<open>unzipFile\<close>,
  \<open>concatenateAllTxtFiles\<close> and \<open>findAllTxtFiles\<close> are the same, line for line, in
  \<open>chaos.go\<close>.

  The program is sequential input and output. Its functions are modelled as functions
  that take the state of the file system (and, where they print, the output so far) and
  return the new state together with the error they return, if any. The functions of
  the Go standard library that they call are modelled first, as far as the program uses
  them.
\<close>

section \<open>Strings and paths\<close>

text \<open>
  Go strings are byte sequences; they are modelled as \<open>string\<close> (a list of 8-bit
  characters). The functions of package \<open>strings\<close> that the program calls are written
  out for the ASCII range: the six ASCII white-space bytes are the white space of
  \<open>TrimSpace\<close>, and \<open>ToLower\<close> maps \<open>A..Z\<close> to \<open>a..z\<close>. Bytes above 0x7F are
  passed through unchanged (Go's Unicode tables are not part of the model).
\<close>

definition isSpace :: "char \<Rightarrow> bool" where
  "isSpace c = (c = CHR 0x09 \<or> c = CHR 0x0A \<or> c = CHR 0x0B \<or> c = CHR 0x0C
                \<or> c = CHR 0x0D \<or> c = CHR 0x20)"

definition toLowerChar :: "char \<Rightarrow> char" where
  "toLowerChar c = (if (65::nat) \<le> of_char c \<and> of_char c \<le> (90::nat)
                    then char_of (of_char c + (32::nat)) else c)"

definition ToLower :: "string \<Rightarrow> string" where
  "ToLower s = map toLowerChar s"

definition TrimSpace :: "string \<Rightarrow> string" where
  "TrimSpace s = rev (dropWhile isSpace (rev (dropWhile isSpace s)))"

text \<open>\<open>strings.Split\<close> with a one-byte separator: \<open>n\<close> separators give \<open>n + 1\<close>
  pieces, and the empty string gives one empty piece.\<close>

fun Split :: "string \<Rightarrow> char \<Rightarrow> string list" where
  "Split [] sep = [[]]"
| "Split (c # cs) sep =
     (if c = sep then [] # Split cs sep
      else (case Split cs sep of [] \<Rightarrow> [[c]] | t # ts \<Rightarrow> (c # t) # ts))"

definition HasSuffix :: "string \<Rightarrow> string \<Rightarrow> bool" where
  "HasSuffix s suffix =
     (length suffix \<le> length s \<and> drop (length s - length suffix) s = suffix)"

text \<open>
  Package \<open>path/filepath\<close> on a Unix system. \<open>Clean\<close> works on the slash-separated
  elements with a stack: empty elements and \<open>.\<close> are dropped, \<open>..\<close> removes the element
  before it, is dropped at the root of a rooted path, and is kept at the front of a
  relative one. The stack is kept reversed.
\<close>

definition slash :: char where
  "slash = CHR ''/''"

fun cleanElems :: "bool \<Rightarrow> string list \<Rightarrow> string list \<Rightarrow> string list" where
  "cleanElems rooted [] out = rev out"
| "cleanElems rooted (e # es) out =
     (if e = [] \<or> e = ''.'' then cleanElems rooted es out
      else if e = ''..'' then
        (case out of
           [] \<Rightarrow> if rooted then cleanElems rooted es [] else cleanElems rooted es [''..'']
         | t # ts \<Rightarrow> if t = ''..'' then cleanElems rooted es (''..'' # out)
                     else cleanElems rooted es ts)
      else cleanElems rooted es (e # out))"

fun joinElems :: "string list \<Rightarrow> string" where
  "joinElems [] = []"
| "joinElems [e] = e"
| "joinElems (e # es) = e @ slash # joinElems es"

definition Clean :: "string \<Rightarrow> string" where
  "Clean path =
     (let rooted = (case path of [] \<Rightarrow> False | c # cs \<Rightarrow> c = slash);
          elems = cleanElems rooted (Split path slash) []
      in if rooted then slash # joinElems elems
         else if elems = [] then ''.'' else joinElems elems)"

text \<open>\<open>filepath.Join\<close> of two elements: empty elements are ignored, the rest is joined
  with a slash and cleaned; two empty elements give the empty string.\<close>

definition Join :: "string \<Rightarrow> string \<Rightarrow> string" where
  "Join a b =
     (if a = [] then (if b = [] then [] else Clean b)
      else Clean (a @ slash # b))"

text \<open>\<open>filepath.Dir\<close>: everything up to the last slash, cleaned.\<close>

definition Dir :: "string \<Rightarrow> string" where
  "Dir path = Clean (rev (dropWhile (\<lambda>c. c \<noteq> slash) (rev path)))"

section \<open>Errors\<close>

datatype errno = ENOENT | ENOTDIR | EISDIR | EACCES | EEXIST | ENOTEMPTY

text \<open>The error values the program can see. \<open>Wrap\<close> is \<open>fmt.Errorf\<close> with \<open>%w\<close>: a
  message in front of the wrapped error.\<close>

datatype error =
    PathError errno
  | ErrTooLong
  | ErrTransport
  | ErrBodyRead
  | ErrJSON
  | ErrZipFormat
  | ErrZipEntryOpen
  | ErrZipEntryRead
  | Wrap string error

section \<open>The operating system, the network and the archive format\<close>

text \<open>
  A file mode is Go's \<open>fs.FileMode\<close>, a 32-bit word: the low nine bits are the Unix
  permission bits and bit 31 is \<open>ModeDir\<close>.
\<close>

type_synonym mode = "32 word"

definition ModeDir :: mode where
  "ModeDir = 0x80000000"

definition ModePerm :: mode where
  "ModePerm = 0x1FF"

definition IsDir :: "mode \<Rightarrow> bool" where
  "IsDir m = (m AND ModeDir \<noteq> 0)"

text \<open>
  The file system as the system calls see it: a map from path to node. A regular file
  carries its permission bits and its bytes. Paths are looked up as the program passes
  them; every path the program builds comes out of \<open>filepath.Join\<close> or \<open>filepath.Dir\<close>
  and is clean, and the directory that holds a path is \<open>filepath.Dir\<close> of it. The
  current directory is the path \<open>.\<close>. Symbolic links, ownership, the set-id and sticky
  bits and the permission bits of directories are not modelled; the process owns every
  file it meets, so the owner bits decide access, and a privileged process may read
  and write every file. Disks do not fill up: a write to an open file succeeds.
\<close>

datatype node = Directory | Regular mode string

text \<open>What \<open>filepath.Walk\<close> is shown of a directory tree: for every name, in the
  sorted order of \<open>readDirNames\<close>, whether \<open>lstat\<close> fails, whether it is a
  non-directory, a directory that can be listed or one that cannot.\<close>

datatype dnode =
    FileN string
  | DirN string "dnode list"
  | DirErrN string errno
  | LstatErrN string errno

text \<open>An HTTP response whose body can be read to its end, or whose body fails after
  the given bytes.\<close>

datatype response = Body string | BrokenBody string

text \<open>One file of a ZIP archive as \<open>archive/zip\<close> presents it: \<open>f.Name\<close>, as it
  stands in the archive (with its default setting the package accepts every name);
  \<open>f.Mode()\<close>, which has \<open>ModeDir\<close> for a directory entry; and what \<open>f.Open()\<close>
  followed by reading gives: the decompressed bytes, an error on opening, or an error
  after some bytes.\<close>

datatype payload = Stored string | BadHeader | BadData string

record zipfile =
  fname :: string
  fmode :: mode
  fbody :: payload

record index_entry =
  Name :: string
  URL :: string

text \<open>
  The part of the world the program only reads: the process's umask and privilege, the
  temporary directory, the answers of the network, and the two decoders of the standard
  library (\<open>archive/zip\<close> reading the central directory, \<open>encoding/json\<close> decoding the
  index), which are parameters of the model.
\<close>

record env =
  umask :: mode
  superuser :: bool
  tmpdir :: string
  http_get :: "string \<Rightarrow> response option"
  zip_decode :: "string \<Rightarrow> zipfile list option"
  json_decode :: "string \<Rightarrow> index_entry list option"

text \<open>
  The part the program changes: the files, and the supply of random names of
  \<open>os.CreateTemp\<close>. \<open>tree\<close> is what \<open>filepath.Walk\<close> is shown when it enumerates a root
  directory: the answers of \<open>lstat\<close> and of reading the directories at the time of
  the walk. A map of paths cannot be enumerated, so these answers are a field of their
  own; no operation changes it, and no theorem needs it to agree with \<open>files\<close>.
\<close>

record fsys =
  files :: "string \<Rightarrow> node option"
  rand :: "string list"
  tree :: "string \<Rightarrow> dnode option"

definition put :: "fsys \<Rightarrow> string \<Rightarrow> node \<Rightarrow> fsys" where
  "put st path n = st\<lparr>files := (files st)(path \<mapsto> n)\<rparr>"

definition mayRead :: "env \<Rightarrow> mode \<Rightarrow> bool" where
  "mayRead ev m = (if superuser ev then True else m AND 0x100 \<noteq> 0)"

definition mayWrite :: "env \<Rightarrow> mode \<Rightarrow> bool" where
  "mayWrite ev m = (if superuser ev then True else m AND 0x80 \<noteq> 0)"

subsection \<open>Directories\<close>

text \<open>\<open>os.Mkdir\<close> needs the path to be free and the directory that holds it to exist.
  The permission argument of \<open>os.Mkdir\<close> and \<open>os.MkdirAll\<close> is left out, directories
  having no permission bits here.\<close>

definition Mkdir :: "fsys \<Rightarrow> string \<Rightarrow> fsys \<times> errno option" where
  "Mkdir st path =
     (case files st path of
        Some n \<Rightarrow> (st, Some EEXIST)
      | None \<Rightarrow>
         (case files st (Dir path) of
            None \<Rightarrow> (st, Some ENOENT)
          | Some (Regular m d) \<Rightarrow> (st, Some ENOTDIR)
          | Some Directory \<Rightarrow> (put st path Directory, None)))"

text \<open>\<open>os.MkdirAll\<close> returns at once when the path exists: without an error for a
  directory, with \<open>ENOTDIR\<close> otherwise. Else it finds the parent by dropping the
  trailing separators and the last element, recurses when that parent is not empty,
  and calls \<open>os.Mkdir\<close>; when that fails it looks whether the directory is there after
  all.\<close>

definition mkdirParent :: "string \<Rightarrow> string" where
  "mkdirParent path =
     rev (tl (dropWhile (\<lambda>c. c \<noteq> slash) (dropWhile (\<lambda>c. c = slash) (rev path))))"

definition mkdirChecked :: "fsys \<Rightarrow> string \<Rightarrow> fsys \<times> errno option" where
  "mkdirChecked st path =
     (case Mkdir st path of
        (st1, None) \<Rightarrow> (st1, None)
      | (st1, Some e) \<Rightarrow>
         (case files st1 path of
            Some Directory \<Rightarrow> (st1, None)
          | Some (Regular m d) \<Rightarrow> (st1, Some e)
          | None \<Rightarrow> (st1, Some e)))"

function MkdirAll :: "fsys \<Rightarrow> string \<Rightarrow> fsys \<times> errno option" where
  "MkdirAll st path =
     (case files st path of
        Some Directory \<Rightarrow> (st, None)
      | Some (Regular m d) \<Rightarrow> (st, Some ENOTDIR)
      | None \<Rightarrow>
         (if mkdirParent path \<noteq> [] then
            (case MkdirAll st (mkdirParent path) of
               (st1, Some e) \<Rightarrow> (st1, Some e)
             | (st1, None) \<Rightarrow> mkdirChecked st1 path)
          else mkdirChecked st path))"
  by pat_completeness auto

termination MkdirAll
proof (relation "measure (\<lambda>(st, path). length path)")
  show "wf (measure (\<lambda>(st :: fsys, path :: string). length path))"
    by simp
next
  fix st :: fsys and path :: string
  assume ne: "mkdirParent path \<noteq> []"
  define r where "r = dropWhile (\<lambda>c. c \<noteq> slash) (dropWhile (\<lambda>c. c = slash) (rev path))"
  have "length r \<le> length (dropWhile (\<lambda>c. c = slash) (rev path))"
    unfolding r_def by (rule length_dropWhile_le)
  also have "\<dots> \<le> length (rev path)"
    by (rule length_dropWhile_le)
  finally have le: "length r \<le> length path" by simp
  from ne have "tl r \<noteq> []" by (simp add: mkdirParent_def r_def)
  then have "length (tl r) < length r" by (cases r) auto
  with le have "length (mkdirParent path) < length path"
    by (simp add: mkdirParent_def r_def)
  then show "((st, mkdirParent path), (st, path)) \<in> measure (\<lambda>(st, path). length path)"
    by simp
qed

subsection \<open>Files\<close>

text \<open>
  \<open>os.OpenFile\<close> with \<open>O_CREATE|O_TRUNC\<close>, write-only (the extractor) or read-write
  (\<open>os.Create\<close>). An existing file is truncated and keeps its permission bits; the
  \<open>perm\<close> argument is used only when the file is created, and the umask is taken off.
\<close>

datatype access = WriteOnly | ReadWrite

definition mayOpen :: "env \<Rightarrow> access \<Rightarrow> mode \<Rightarrow> bool" where
  "mayOpen ev a m =
     (case a of WriteOnly \<Rightarrow> mayWrite ev m | ReadWrite \<Rightarrow> mayWrite ev m \<and> mayRead ev m)"

definition createdPerm :: "env \<Rightarrow> mode \<Rightarrow> mode" where
  "createdPerm ev perm = (perm AND ModePerm) AND NOT (umask ev)"

definition OpenFile_trunc ::
  "env \<Rightarrow> fsys \<Rightarrow> string \<Rightarrow> access \<Rightarrow> mode \<Rightarrow> fsys \<times> errno option" where
  "OpenFile_trunc ev st name a perm =
     (case files st name of
        Some Directory \<Rightarrow> (st, Some EISDIR)
      | Some (Regular m d) \<Rightarrow>
         (if mayOpen ev a m then (put st name (Regular m []), None) else (st, Some EACCES))
      | None \<Rightarrow>
         (case files st (Dir name) of
            None \<Rightarrow> (st, Some ENOENT)
          | Some (Regular m d) \<Rightarrow> (st, Some ENOTDIR)
          | Some Directory \<Rightarrow> (put st name (Regular (createdPerm ev perm) []), None)))"

definition Create :: "env \<Rightarrow> fsys \<Rightarrow> string \<Rightarrow> fsys \<times> errno option" where
  "Create ev st name = OpenFile_trunc ev st name ReadWrite 0x1B6"

text \<open>Writing through an open handle appends at the end of the file the handle was
  opened on (nothing else writes to it meanwhile, and nothing removes it).\<close>

definition WriteBytes :: "fsys \<Rightarrow> string \<Rightarrow> string \<Rightarrow> fsys" where
  "WriteBytes st name bs =
     (case files st name of
        Some (Regular m d) \<Rightarrow> put st name (Regular m (d @ bs))
      | Some Directory \<Rightarrow> st
      | None \<Rightarrow> st)"

text \<open>\<open>os.Open\<close>: a directory can be opened, but reading from it fails.\<close>

datatype rhandle = RData string | RDir

definition Open :: "env \<Rightarrow> fsys \<Rightarrow> string \<Rightarrow> errno + rhandle" where
  "Open ev st name =
     (case files st name of
        None \<Rightarrow> Inl ENOENT
      | Some Directory \<Rightarrow> Inr RDir
      | Some (Regular m d) \<Rightarrow> if mayRead ev m then Inr (RData d) else Inl EACCES)"

text \<open>\<open>os.Remove\<close> unlinks a regular file. Removing a directory would need to know
  whether it is empty, which a map of paths does not tell; a directory is left in place
  and reported as not empty. The program calls \<open>os.Remove\<close> on its temporary file
  only, which is a regular file whenever the call is made (\<open>temp_file_regular\<close> below).\<close>

definition Remove :: "fsys \<Rightarrow> string \<Rightarrow> fsys \<times> errno option" where
  "Remove st name =
     (case files st name of
        None \<Rightarrow> (st, Some ENOENT)
      | Some (Regular m d) \<Rightarrow> (st\<lparr>files := (files st)(name := None)\<rparr>, None)
      | Some Directory \<Rightarrow> (st, Some ENOTEMPTY))"

text \<open>
  \<open>os.CreateTemp\<close>: the pattern is split at its last star, the directory is the
  temporary directory when none is given, and random names are tried until one does
  not exist (\<open>O_EXCL\<close>); the file is created with mode 0600. The random names to come
  are the list \<open>rand\<close>; running out of them stands for Go giving up after 10000 tries.
\<close>

definition star :: char where
  "star = CHR ''*''"

definition prefixAndSuffix :: "string \<Rightarrow> string \<times> string" where
  "prefixAndSuffix pattern =
     (if star \<in> set pattern
      then (rev (tl (dropWhile (\<lambda>c. c \<noteq> star) (rev pattern))),
            rev (takeWhile (\<lambda>c. c \<noteq> star) (rev pattern)))
      else (pattern, []))"

definition joinPath :: "string \<Rightarrow> string \<Rightarrow> string" where
  "joinPath dir name =
     (if dir \<noteq> [] \<and> last dir = slash then dir @ name else dir @ slash # name)"

fun tryTemp :: "env \<Rightarrow> fsys \<Rightarrow> string \<Rightarrow> string \<Rightarrow> string list \<Rightarrow> errno + (string \<times> fsys)" where
  "tryTemp ev st pre suf [] = Inl EEXIST"
| "tryTemp ev st pre suf (r # rs) =
     (case files st (pre @ r @ suf) of
        Some n \<Rightarrow> tryTemp ev st pre suf rs
      | None \<Rightarrow>
         (case files st (Dir (pre @ r @ suf)) of
            None \<Rightarrow> Inl ENOENT
          | Some (Regular m d) \<Rightarrow> Inl ENOTDIR
          | Some Directory \<Rightarrow>
             Inr (pre @ r @ suf,
                  (put st (pre @ r @ suf) (Regular (createdPerm ev 0x180) []))\<lparr>rand := rs\<rparr>)))"

definition CreateTemp :: "env \<Rightarrow> fsys \<Rightarrow> string \<Rightarrow> string \<Rightarrow> errno + (string \<times> fsys)" where
  "CreateTemp ev st dir pattern =
     (case prefixAndSuffix pattern of
        (pre, suf) \<Rightarrow>
          tryTemp ev st (joinPath (if dir = [] then tmpdir ev else dir) pre) suf (rand st))"

subsection \<open>Reading lines\<close>

text \<open>
  \<open>bufio.Scanner\<close> with its default split function \<open>ScanLines\<close> and its default buffer:
  a line ends at a newline, one carriage return before the newline is dropped, a last
  line without a newline is returned unless it is empty, and a line that does not fit
  the buffer of \<open>MaxScanTokenSize\<close> bytes stops the scan with \<open>ErrTooLong\<close>.
\<close>

definition newline :: char where
  "newline = CHR 0x0A"

definition MaxScanTokenSize :: nat where
  "MaxScanTokenSize = 65536"

definition dropCR :: "string \<Rightarrow> string" where
  "dropCR l = (if l \<noteq> [] \<and> last l = CHR 0x0D then butlast l else l)"

definition rawLines :: "string \<Rightarrow> string list" where
  "rawLines d = (if last (Split d newline) = [] then butlast (Split d newline)
                 else Split d newline)"

fun scanTokens :: "string list \<Rightarrow> string list \<times> error option" where
  "scanTokens [] = ([], None)"
| "scanTokens (l # ls) =
     (if MaxScanTokenSize \<le> length l then ([], Some ErrTooLong)
      else (case scanTokens ls of (ts, e) \<Rightarrow> (dropCR l # ts, e)))"

definition ScanAll :: "rhandle \<Rightarrow> string list \<times> error option" where
  "ScanAll h = (case h of RDir \<Rightarrow> ([], Some (PathError EISDIR))
                        | RData d \<Rightarrow> scanTokens (rawLines d))"

section \<open>The program\<close>

subsection \<open>The selector: \<open>parseCompanyNames\<close> and \<open>readCompanyList\<close>\<close>

text \<open>A \<open>map[string]struct{}\<close> is a set of strings; the \<open>nil\<close> map is \<open>None\<close>.\<close>

definition parseCompanyNames :: "string \<Rightarrow> string set" where
  "parseCompanyNames input =
     foldl (\<lambda>companies name.
              (let trimmed = TrimSpace name
               in if trimmed \<noteq> [] then insert (ToLower trimmed) companies else companies))
           {} (Split input CHR '','')"

definition readCompanyList :: "env \<Rightarrow> fsys \<Rightarrow> string \<Rightarrow> string set option \<times> error option" where
  "readCompanyList ev st path =
     (case Open ev st path of
        Inl e \<Rightarrow> (None, Some (PathError e))
      | Inr h \<Rightarrow>
         (case ScanAll h of
            (tokens, err) \<Rightarrow>
              (Some (foldl (\<lambda>companies text.
                              (let line = TrimSpace text
                               in if line \<noteq> [] then insert (ToLower line) companies
                                  else companies))
                           {} tokens),
               err)))"

text \<open>The Selection Set in the words of the specification: the lowercased, trimmed,
  non-empty ones among the given tokens, as a set.\<close>

definition selectionOf :: "string list \<Rightarrow> string set" where
  "selectionOf tokens = ToLower ` (TrimSpace ` set tokens - {[]})"

subsection \<open>The archive extractor: \<open>unzipFile\<close>\<close>

text \<open>\<open>zip.OpenReader\<close>: the file is opened and its bytes are decoded.\<close>

definition OpenReader :: "env \<Rightarrow> fsys \<Rightarrow> string \<Rightarrow> error + zipfile list" where
  "OpenReader ev st name =
     (case Open ev st name of
        Inl e \<Rightarrow> Inl (PathError e)
      | Inr RDir \<Rightarrow> Inl (PathError EISDIR)
      | Inr (RData d) \<Rightarrow>
         (case zip_decode ev d of None \<Rightarrow> Inl ErrZipFormat | Some fs \<Rightarrow> Inr fs))"

text \<open>
  One turn of the loop over \<open>r.File\<close>. The result of \<open>os.MkdirAll\<close> for a directory
  entry is dropped, as in the source; for a file entry each failing step returns. The
  output file is closed on every path, which has no effect on the state.
\<close>

definition unzipEntry :: "env \<Rightarrow> fsys \<Rightarrow> string \<Rightarrow> zipfile \<Rightarrow> fsys \<times> error option" where
  "unzipEntry ev st destDir f =
     (let fpath = Join destDir (fname f)
      in if IsDir (fmode f) then (fst (MkdirAll st fpath), None)
         else
           (case MkdirAll st (Dir fpath) of
              (st1, Some e) \<Rightarrow> (st1, Some (PathError e))
            | (st1, None) \<Rightarrow>
               (case OpenFile_trunc ev st1 fpath WriteOnly (fmode f) of
                  (st2, Some e) \<Rightarrow>
                    (st2, Some (Wrap ''error opening output file'' (PathError e)))
                | (st2, None) \<Rightarrow>
                   (case fbody f of
                      BadHeader \<Rightarrow>
                        (st2, Some (Wrap ''error opening zip content'' ErrZipEntryOpen))
                    | BadData d \<Rightarrow>
                        (WriteBytes st2 fpath d,
                         Some (Wrap ''error writing to output file'' ErrZipEntryRead))
                    | Stored d \<Rightarrow> (WriteBytes st2 fpath d, None)))))"

fun unzipEntries :: "env \<Rightarrow> fsys \<Rightarrow> string \<Rightarrow> zipfile list \<Rightarrow> fsys \<times> error option" where
  "unzipEntries ev st destDir [] = (st, None)"
| "unzipEntries ev st destDir (f # fs) =
     (case unzipEntry ev st destDir f of
        (st1, Some e) \<Rightarrow> (st1, Some e)
      | (st1, None) \<Rightarrow> unzipEntries ev st1 destDir fs)"

definition unzipFile :: "env \<Rightarrow> fsys \<Rightarrow> string \<Rightarrow> string \<Rightarrow> fsys \<times> error option" where
  "unzipFile ev st zipFile destDir =
     (case OpenReader ev st zipFile of
        Inl e \<Rightarrow> (st, Some (Wrap ''error opening zip file'' e))
      | Inr fs \<Rightarrow> unzipEntries ev st destDir fs)"

subsection \<open>The item processor: \<open>downloadAndUnzip\<close> and \<open>processURLs\<close>\<close>

text \<open>What \<open>downloadAndUnzip\<close> does after it has registered the deferred removal of the
  temporary file: copy the body, create the directory, extract.\<close>

definition saveAndUnzip ::
  "env \<Rightarrow> fsys \<Rightarrow> string \<Rightarrow> response \<Rightarrow> string \<Rightarrow> string \<Rightarrow> fsys \<times> error option" where
  "saveAndUnzip ev st tempFile resp name baseDir =
     (case resp of
        BrokenBody d \<Rightarrow>
          (WriteBytes st tempFile d, Some (Wrap ''error writing to temp file'' ErrBodyRead))
      | Body d \<Rightarrow>
         (case MkdirAll (WriteBytes st tempFile d) (Join baseDir name) of
            (st1, Some e) \<Rightarrow> (st1, Some (Wrap ''error creating directory'' (PathError e)))
          | (st1, None) \<Rightarrow>
             (case unzipFile ev st1 tempFile (Join baseDir name) of
                (st2, Some e) \<Rightarrow> (st2, Some (Wrap ''error unzipping file'' e))
              | (st2, None) \<Rightarrow> (st2, None))))"

definition downloadAndUnzip ::
  "env \<Rightarrow> fsys \<Rightarrow> string \<Rightarrow> string \<Rightarrow> string \<Rightarrow> fsys \<times> error option" where
  "downloadAndUnzip ev st url name baseDir =
     (case http_get ev url of
        None \<Rightarrow> (st, Some (Wrap ''error downloading'' ErrTransport))
      | Some resp \<Rightarrow>
         (case CreateTemp ev st [] ''*.zip'' of
            Inl e \<Rightarrow> (st, Some (Wrap ''error creating temp file'' (PathError e)))
          | Inr (tempFile, st1) \<Rightarrow>
             (case saveAndUnzip ev st1 tempFile resp name baseDir of
                (st2, r) \<Rightarrow> (fst (Remove st2 tempFile), r))))"

text \<open>What the program prints on the standard output and through \<open>log.Printf\<close>, in
  order; the formatted text is kept as a constructor with its arguments.
  \<open>SelectedCompanies\<close> carries the set whose members \<open>getCompanyNames\<close> lists in the
  unspecified order of a Go map.\<close>

datatype event =
    UsageShown
  | SelectedCompanies "string set"
  | DownloadingAll
  | Processing string
  | FailedToProcess string error
  | Completed nat
  | FailedToOpen string error
  | FailedToCopy string string error
  | Created string

definition selected :: "string set option \<Rightarrow> index_entry \<Rightarrow> bool" where
  "selected filterSet entry =
     (case filterSet of None \<Rightarrow> True | Some s \<Rightarrow> ToLower (Name entry) \<in> s)"

text \<open>The loop of \<open>processURLs\<close> over the decoded entries, with the file system, the
  output so far and \<open>processedCount\<close> as its state. The progress notice is printed
  before the call of \<open>downloadAndUnzip\<close>, which prints nothing; the failure is logged
  after it. \<open>processedCount\<close> is a Go \<open>int\<close>; it counts entries of a decoded index and
  cannot reach \<open>2^63\<close>, so it is a natural number here.\<close>

fun processEntries ::
  "env \<Rightarrow> string \<Rightarrow> string set option \<Rightarrow> index_entry list
     \<Rightarrow> fsys \<times> event list \<times> nat \<Rightarrow> fsys \<times> event list \<times> nat" where
  "processEntries ev baseDir filterSet [] (st, out, processedCount) =
     (st, out, processedCount)"
| "processEntries ev baseDir filterSet (entry # entries) (st, out, processedCount) =
     (if \<not> selected filterSet entry
      then processEntries ev baseDir filterSet entries (st, out, processedCount)
      else
        (case downloadAndUnzip ev st (URL entry) (Name entry) baseDir of
           (st1, Some err) \<Rightarrow>
             processEntries ev baseDir filterSet entries
               (st1, (out @ [Processing (Name entry)]) @ [FailedToProcess (Name entry) err],
                processedCount)
         | (st1, None) \<Rightarrow>
             processEntries ev baseDir filterSet entries
               (st1, out @ [Processing (Name entry)], processedCount + 1)))"

text \<open>Decoding the body of the index: a body that breaks off is not decoded.\<close>

definition decodeIndex :: "env \<Rightarrow> response \<Rightarrow> index_entry list option" where
  "decodeIndex ev resp =
     (case resp of Body d \<Rightarrow> json_decode ev d | BrokenBody d \<Rightarrow> None)"

definition processURLs ::
  "env \<Rightarrow> fsys \<times> event list \<Rightarrow> string \<Rightarrow> string \<Rightarrow> string set option
     \<Rightarrow> (fsys \<times> event list) \<times> error option" where
  "processURLs ev s jsonURL baseDir filterSet =
     (case http_get ev jsonURL of
        None \<Rightarrow> (s, Some (Wrap ''error fetching JSON index'' ErrTransport))
      | Some resp \<Rightarrow>
         (case decodeIndex ev resp of
            None \<Rightarrow> (s, Some (Wrap ''error decoding JSON index'' ErrJSON))
          | Some entries \<Rightarrow>
             (case processEntries ev baseDir filterSet entries (fst s, snd s, 0) of
                (st1, out1, processedCount) \<Rightarrow>
                  ((st1, out1 @ [Completed processedCount]), None))))"

subsection \<open>The concatenator: \<open>findAllTxtFiles\<close> and \<open>concatenateAllTxtFiles\<close>\<close>

text \<open>The callback given to \<open>filepath.Walk\<close>, for a call without an error: a
  non-directory whose name ends in \<open>.txt\<close> is appended.\<close>

definition visit :: "string list \<Rightarrow> string \<Rightarrow> string \<Rightarrow> bool \<Rightarrow> string list" where
  "visit found path name isdir =
     (if \<not> isdir \<and> HasSuffix name ''.txt'' then found @ [path] else found)"

fun nodeName :: "dnode \<Rightarrow> string" where
  "nodeName (FileN n) = n"
| "nodeName (DirN n cs) = n"
| "nodeName (DirErrN n e) = n"
| "nodeName (LstatErrN n e) = n"

text \<open>
  \<open>filepath.Walk\<close> with this callback. A call of the callback with an error returns
  that error, and \<open>walk\<close> returns every error it is given except \<open>SkipDir\<close>, which this
  callback never returns: the first error ends the walk.
\<close>

fun walk :: "string \<Rightarrow> dnode \<Rightarrow> string list \<Rightarrow> string list \<times> errno option"
  and walkNames :: "string \<Rightarrow> dnode list \<Rightarrow> string list \<Rightarrow> string list \<times> errno option" where
  "walk path (FileN n) found = (visit found path n False, None)"
| "walk path (DirN n cs) found = walkNames path cs (visit found path n True)"
| "walk path (DirErrN n e) found = (found, Some e)"
| "walk path (LstatErrN n e) found = (found, Some e)"
| "walkNames path [] found = (found, None)"
| "walkNames path (c # cs) found =
     (case walk (Join path (nodeName c)) c found of
        (found1, Some e) \<Rightarrow> (found1, Some e)
      | (found1, None) \<Rightarrow> walkNames path cs found1)"

definition Walk :: "fsys \<Rightarrow> string \<Rightarrow> string list \<times> errno option" where
  "Walk st root =
     (case tree st root of None \<Rightarrow> ([], Some ENOENT) | Some t \<Rightarrow> walk root t [])"

definition findAllTxtFiles :: "fsys \<Rightarrow> string \<Rightarrow> string list" where
  "findAllTxtFiles st root = fst (Walk st root)"

text \<open>The loop of \<open>concatenateAllTxtFiles\<close>. A write to the open output file does not
  fail in this model, so the newline is always written after a copy.\<close>

fun copyFiles ::
  "env \<Rightarrow> string \<Rightarrow> string list \<Rightarrow> fsys \<times> event list \<Rightarrow> fsys \<times> event list" where
  "copyFiles ev destPath [] (st, out) = (st, out)"
| "copyFiles ev destPath (file # rest) (st, out) =
     (case Open ev st file of
        Inl e \<Rightarrow> copyFiles ev destPath rest (st, out @ [FailedToOpen file (PathError e)])
      | Inr RDir \<Rightarrow>
          copyFiles ev destPath rest
            (st, out @ [FailedToCopy file destPath (PathError EISDIR)])
      | Inr (RData d) \<Rightarrow>
          copyFiles ev destPath rest
            (WriteBytes (WriteBytes st destPath d) destPath [newline], out))"

definition concatenateFrom ::
  "env \<Rightarrow> fsys \<times> event list \<Rightarrow> string list \<Rightarrow> string
     \<Rightarrow> (fsys \<times> event list) \<times> error option" where
  "concatenateFrom ev s allTxtFiles outputDir =
     (case Create ev (fst s) (Join outputDir ''everything.txt'') of
        (st1, Some e) \<Rightarrow> ((st1, snd s), Some (Wrap ''error creating'' (PathError e)))
      | (st1, None) \<Rightarrow>
         (case copyFiles ev (Join outputDir ''everything.txt'') allTxtFiles (st1, snd s) of
            (st2, out2) \<Rightarrow>
              ((st2, out2 @ [Created (Join outputDir ''everything.txt'')]), None)))"

definition concatenateAllTxtFiles ::
  "env \<Rightarrow> fsys \<times> event list \<Rightarrow> string \<Rightarrow> string \<Rightarrow> (fsys \<times> event list) \<times> error option" where
  "concatenateAllTxtFiles ev s baseDir outputDir =
     concatenateFrom ev s (findAllTxtFiles (fst s) baseDir) outputDir"

subsection \<open>\<open>main\<close>\<close>

record flags =
  inputFile :: string
  companies :: string
  allFlag :: bool
  helpFlag :: bool

datatype exit = Returned | Fatal string error

definition jsonURL :: string where
  "jsonURL = ''https://chaos-data.projectdiscovery.io/index.json''"

text \<open>The choice of the Selection Set in \<open>main\<close>: the three branches of the
  \<open>if\<close>/\<open>else if\<close> chain, in the order of the source.\<close>

definition chooseSet ::
  "env \<Rightarrow> fsys \<times> event list \<Rightarrow> flags \<Rightarrow> (event list \<times> string set option) \<times> error option" where
  "chooseSet ev s fl =
     (if companies fl \<noteq> []
      then ((snd s @ [SelectedCompanies (parseCompanyNames (companies fl))],
             Some (parseCompanyNames (companies fl))), None)
      else if inputFile fl \<noteq> []
      then (case readCompanyList ev (fst s) (inputFile fl) of
              (companySet, Some err) \<Rightarrow> ((snd s, companySet), Some err)
            | (companySet, None) \<Rightarrow> ((snd s, companySet), None))
      else if allFlag fl then ((snd s @ [DownloadingAll], None), None)
      else ((snd s, None), None))"

definition main :: "env \<Rightarrow> fsys \<times> event list \<Rightarrow> flags \<Rightarrow> (fsys \<times> event list) \<times> exit" where
  "main ev s fl =
     (if helpFlag fl \<or> (inputFile fl = [] \<and> companies fl = [] \<and> \<not> allFlag fl)
      then ((fst s, snd s @ [UsageShown]), Returned)
      else
        (case MkdirAll (fst s) (Join ''.'' ''AllChaosData'') of
           (st1, Some e) \<Rightarrow> ((st1, snd s), Fatal ''Failed to create base directory'' (PathError e))
         | (st1, None) \<Rightarrow>
            (case chooseSet ev (st1, snd s) fl of
               ((out1, companySet), Some err) \<Rightarrow>
                 ((st1, out1), Fatal ''Failed to read input file'' err)
             | ((out1, companySet), None) \<Rightarrow>
                (case processURLs ev (st1, out1) jsonURL (Join ''.'' ''AllChaosData'') companySet of
                   (s2, Some err) \<Rightarrow> (s2, Fatal ''Failed to process URLs'' err)
                 | (s2, None) \<Rightarrow>
                    (case concatenateAllTxtFiles ev s2 (Join ''.'' ''AllChaosData'') ''.'' of
                       (s3, Some err) \<Rightarrow> (s3, Fatal ''Failed to concatenate all txt files'' err)
                     | (s3, None) \<Rightarrow> (s3, Returned))))))"

section \<open>Notions used in the statements\<close>

text \<open>\<open>keeps st st'\<close>: every directory of \<open>st\<close> is a directory of \<open>st'\<close>, and every
  regular file of \<open>st\<close> is a regular file of \<open>st'\<close> with the same permission bits.\<close>

definition keeps :: "fsys \<Rightarrow> fsys \<Rightarrow> bool" where
  "keeps st st' =
     (\<forall>p. case files st p of
             None \<Rightarrow> True
           | Some Directory \<Rightarrow> files st' p = Some Directory
           | Some (Regular m d) \<Rightarrow> (\<exists>d'. files st' p = Some (Regular m d')))"


text \<open>\<open>inside dir p\<close>: the path \<open>p\<close> is \<open>dir\<close> or lies below it.\<close>

definition inside :: "string \<Rightarrow> string \<Rightarrow> bool" where
  "inside dir p = (p = dir \<or> take (Suc (length dir)) p = dir @ [slash])"

text \<open>The names in the progress notices and in the failure log lines of an output.\<close>

fun attempted :: "event list \<Rightarrow> string list" where
  "attempted [] = []"
| "attempted (Processing name # es) = name # attempted es"
| "attempted (e # es) = attempted es"

fun failed :: "event list \<Rightarrow> string list" where
  "failed [] = []"
| "failed (FailedToProcess name err # es) = name # failed es"
| "failed (e # es) = failed es"

definition bytesOf :: "fsys \<Rightarrow> string \<Rightarrow> string" where
  "bytesOf st p = (case files st p of Some (Regular m d) \<Rightarrow> d | Some Directory \<Rightarrow> [] | None \<Rightarrow> [])"

section \<open>A concrete world\<close>

text \<open>
  A small world on which the theorems below are instantiated: an unprivileged process
  with umask 022, a current directory holding a name-list file, and \<open>/tmp\<close>.
\<close>

definition demoNames :: string where
  "demoNames = ''Tesla'' @ [newline, newline] @ ''  google  '' @ [newline]"

definition demoFiles :: "string \<Rightarrow> node option" where
  "demoFiles = [''.'' \<mapsto> Directory, ''/tmp'' \<mapsto> Directory,
                ''companies.txt'' \<mapsto> Regular 0x1A4 demoNames]"

definition demoFs :: fsys where
  "demoFs = \<lparr>files = demoFiles, rand = [''101'', ''102'', ''103''], tree = (\<lambda>p. None)\<rparr>"

text \<open>The same file system after \<open>os.CreateTemp\<close> has made its first file.\<close>

definition demoFs1 :: fsys where
  "demoFs1 = (put demoFs ''/tmp/101.zip'' (Regular 0x180 []))\<lparr>rand := [''102'', ''103'']\<rparr>"

text \<open>The states of extracting the broken archive for an entry \<open>Mixed\<close>: the archive
  saved and the directory made, the first file written, the second file cut short.\<close>

definition mixedFs :: fsys where
  "mixedFs = fst (MkdirAll (WriteBytes demoFs1 ''/tmp/101.zip'' ''PK:mixed'')
                    ''AllChaosData/Mixed'')"

definition mixedFsA :: fsys where
  "mixedFsA = put mixedFs ''AllChaosData/Mixed/a.txt'' (Regular 0x1A4 ''A'')"

definition mixedFsB :: fsys where
  "mixedFsB = put mixedFsA ''AllChaosData/Mixed/b.txt'' (Regular 0x1A4 ''B-par'')"

text \<open>A destination directory \<open>out\<close> that already holds a file \<open>a.txt\<close> with mode 0600,
  and three more archive files: one read-only (mode 0444), one in a subdirectory with
  mode 0666, one whose name climbs out of the destination.\<close>

definition outFs :: fsys where
  "outFs = \<lparr>files = demoFiles(''out'' \<mapsto> Directory,
                               ''out/a.txt'' \<mapsto> Regular 0x180 ''old bytes''),
            rand = [], tree = (\<lambda>p. None)\<rparr>"

definition zipR :: zipfile where
  "zipR = \<lparr>fname = ''r.txt'', fmode = 0x124, fbody = Stored ''R''\<rparr>"

definition zipNew :: zipfile where
  "zipNew = \<lparr>fname = ''deep/n.txt'', fmode = 0x1B6, fbody = Stored ''N''\<rparr>"

definition zipEscape :: zipfile where
  "zipEscape = \<lparr>fname = ''../escaped.txt'', fmode = 0x1A4, fbody = Stored ''owned''\<rparr>"



definition quietEnv :: env where
  "quietEnv = \<lparr>umask = 0x12, superuser = False, tmpdir = ''/tmp'',
               http_get = (\<lambda>u. None), zip_decode = (\<lambda>d. None), json_decode = (\<lambda>d. None)\<rparr>"

text \<open>
  A network with an index of four entries: \<open>Tesla\<close> and \<open>Google\<close> have archives,
  the URL of \<open>Acme\<close> answers with a page that is no archive, and the URL of \<open>Nokia\<close>
  does not answer. A fifth URL breaks off in the middle of the body.
\<close>

definition teslaZip :: "zipfile list" where
  "teslaZip = [\<lparr>fname = ''tesla.txt'', fmode = 0x1A4, fbody = Stored ''tesla.com''\<rparr>]"

definition googleZip :: "zipfile list" where
  "googleZip = [\<lparr>fname = ''sub/'', fmode = ModeDir OR 0x1ED, fbody = Stored []\<rparr>,
                \<lparr>fname = ''sub/google.txt'', fmode = 0x1A4, fbody = Stored ''google.com''\<rparr>]"

text \<open>An archive whose second file breaks off while it is read.\<close>

definition zipA :: zipfile where
  "zipA = \<lparr>fname = ''a.txt'', fmode = 0x1A4, fbody = Stored ''A''\<rparr>"

definition zipB :: zipfile where
  "zipB = \<lparr>fname = ''b.txt'', fmode = 0x1A4, fbody = BadData ''B-par''\<rparr>"

definition zipC :: zipfile where
  "zipC = \<lparr>fname = ''c.txt'', fmode = 0x1A4, fbody = Stored ''C''\<rparr>"

definition mixedZip :: "zipfile list" where
  "mixedZip = [zipA, zipB, zipC]"

definition demoIndex :: "index_entry list" where
  "demoIndex = [\<lparr>Name = ''Tesla'', URL = ''https://chaos/tesla.zip''\<rparr>,
                \<lparr>Name = ''Acme'', URL = ''https://chaos/acme.zip''\<rparr>,
                \<lparr>Name = ''Nokia'', URL = ''https://chaos/nokia.zip''\<rparr>,
                \<lparr>Name = ''Google'', URL = ''https://chaos/google.zip''\<rparr>]"

definition demoNet :: "string \<Rightarrow> response option" where
  "demoNet = [jsonURL \<mapsto> Body ''[index]'',
              ''https://chaos/tesla.zip'' \<mapsto> Body ''PK:tesla'',
              ''https://chaos/acme.zip'' \<mapsto> Body ''<html>404</html>'',
              ''https://chaos/google.zip'' \<mapsto> Body ''PK:google'',
              ''https://chaos/cut.zip'' \<mapsto> BrokenBody ''PK:te'',
              ''https://chaos/mixed.zip'' \<mapsto> Body ''PK:mixed'']"

definition demoEnv :: env where
  "demoEnv = \<lparr>umask = 0x12, superuser = False, tmpdir = ''/tmp'',
              http_get = demoNet,
              zip_decode = [''PK:tesla'' \<mapsto> teslaZip, ''PK:google'' \<mapsto> googleZip,
                            ''PK:mixed'' \<mapsto> mixedZip],
              json_decode = [''[index]'' \<mapsto> demoIndex]\<rparr>"

text \<open>The file system with the base directory made, and an index that lists the
  same name twice.\<close>

definition baseFs :: fsys where
  "baseFs = put demoFs ''AllChaosData'' Directory"

definition dupIndex :: "index_entry list" where
  "dupIndex = [\<lparr>Name = ''Tesla'', URL = ''https://chaos/tesla.zip''\<rparr>,
               \<lparr>Name = ''Tesla'', URL = ''https://chaos/tesla.zip''\<rparr>]"

definition dupEnv :: env where
  "dupEnv = demoEnv\<lparr>json_decode := [''[index]'' \<mapsto> dupIndex]\<rparr>"

text \<open>
  An archive that holds a file \<open>data\<close>, then a directory entry \<open>data/\<close>, then a file
  \<open>c.txt\<close>, behind the URL of an index entry \<open>Clash\<close>; and the states of extracting
  it: the archive saved and the directory of the entry made, the first file written,
  the last file written.
\<close>

definition zipData :: zipfile where
  "zipData = \<lparr>fname = ''data'', fmode = 0x1A4, fbody = Stored ''D''\<rparr>"

definition zipDataDir :: zipfile where
  "zipDataDir = \<lparr>fname = ''data/'', fmode = ModeDir OR 0x1ED, fbody = Stored []\<rparr>"

definition clashZip :: "zipfile list" where
  "clashZip = [zipData, zipDataDir, zipC]"

definition clashEnv :: env where
  "clashEnv = demoEnv\<lparr>http_get := [''https://chaos/clash.zip'' \<mapsto> Body ''PK:clash''],
                       zip_decode := [''PK:clash'' \<mapsto> clashZip]\<rparr>"

definition clashFs :: fsys where
  "clashFs = fst (MkdirAll (WriteBytes demoFs1 ''/tmp/101.zip'' ''PK:clash'')
                    ''AllChaosData/Clash'')"

definition clashFsA :: fsys where
  "clashFsA = put clashFs ''AllChaosData/Clash/data'' (Regular 0x1A4 ''D'')"

definition clashFsC :: fsys where
  "clashFsC = put clashFsA ''AllChaosData/Clash/c.txt'' (Regular 0x1A4 ''C'')"

text \<open>
  An output tree for the concatenator: \<open>a/1.txt\<close> holds \<open>X\<close> and \<open>b/2.txt\<close> holds \<open>Y\<close>,
  beside a file that is no text file and an old combined file. In the second world
  there is a text file \<open>a/0.txt\<close> that nobody may read; in the third the directory
  \<open>aa\<close>, which sorts between \<open>a\<close> and \<open>b\<close>, cannot be listed.
\<close>

definition catFiles :: "string \<Rightarrow> node option" where
  "catFiles = [''.'' \<mapsto> Directory, ''AllChaosData'' \<mapsto> Directory,
               ''AllChaosData/a'' \<mapsto> Directory,
               ''AllChaosData/a/1.txt'' \<mapsto> Regular 0x1A4 ''X'',
               ''AllChaosData/a/notes.md'' \<mapsto> Regular 0x1A4 ''no text'',
               ''AllChaosData/b'' \<mapsto> Directory,
               ''AllChaosData/b/2.txt'' \<mapsto> Regular 0x1A4 ''Y'',
               ''everything.txt'' \<mapsto> Regular 0x1A4 ''stale'']"

definition catFs :: fsys where
  "catFs = \<lparr>files = catFiles, rand = [],
            tree = [''AllChaosData'' \<mapsto>
                      DirN ''AllChaosData''
                        [DirN ''a'' [FileN ''1.txt'', FileN ''notes.md''],
                         DirN ''b'' [FileN ''2.txt'']]]\<rparr>"

definition badCatFs :: fsys where
  "badCatFs = \<lparr>files = catFiles(''AllChaosData/a/0.txt'' \<mapsto> Regular 0 ''secret''), rand = [],
               tree = [''AllChaosData'' \<mapsto>
                         DirN ''AllChaosData''
                           [DirN ''a'' [FileN ''0.txt'', FileN ''1.txt'', FileN ''notes.md''],
                            DirN ''b'' [FileN ''2.txt'']]]\<rparr>"

definition lockedFs :: fsys where
  "lockedFs = \<lparr>files = catFiles(''AllChaosData/aa'' \<mapsto> Directory), rand = [],
               tree = [''AllChaosData'' \<mapsto>
                         DirN ''AllChaosData''
                           [DirN ''a'' [FileN ''1.txt'', FileN ''notes.md''],
                            DirErrN ''aa'' EACCES,
                            DirN ''b'' [FileN ''2.txt'']]]\<rparr>"

text \<open>The first file system again, with the view of the base directory that the walk
  is given once the archive of \<open>Tesla\<close> is extracted.\<close>

definition mainFs :: fsys where
  "mainFs = \<lparr>files = demoFiles, rand = [''101'', ''102'', ''103''],
             tree = [''AllChaosData'' \<mapsto>
                       DirN ''AllChaosData'' [DirN ''Tesla'' [FileN ''tesla.txt'']]]\<rparr>"

section \<open>Evaluation and basic facts\<close>

declare MkdirAll.simps [simp del]

lemmas string_eval =
  TrimSpace_def isSpace_def ToLower_def toLowerChar_def char_of_def bit_Suc_0_iff
  newline_def slash_def star_def

lemmas path_eval = Join_def Dir_def Clean_def mkdirParent_def prefixAndSuffix_def joinPath_def

lemmas os_eval = Mkdir_def mkdirChecked_def MkdirAll.simps OpenFile_trunc_def Create_def
  WriteBytes_def Open_def Remove_def CreateTemp_def put_def mayRead_def mayWrite_def mayOpen_def
  createdPerm_def ModePerm_def ModeDir_def IsDir_def

lemmas prog_eval = OpenReader_def unzipEntry_def unzipFile_def saveAndUnzip_def
  downloadAndUnzip_def

lemmas loop_eval = processEntries.simps processURLs_def decodeIndex_def selected_def

lemmas cat_eval = visit_def HasSuffix_def Walk_def findAllTxtFiles_def concatenateFrom_def
  concatenateAllTxtFiles_def bytesOf_def

lemmas main_eval = main_def chooseSet_def parseCompanyNames_def readCompanyList_def ScanAll_def
  rawLines_def MaxScanTokenSize_def dropCR_def

lemmas demo_eval = demoEnv_def demoNet_def demoFs_def demoFiles_def demoIndex_def teslaZip_def
  googleZip_def mixedZip_def zipA_def zipB_def zipC_def jsonURL_def quietEnv_def outFs_def
  zipR_def zipNew_def zipEscape_def baseFs_def dupIndex_def dupEnv_def catFiles_def catFs_def
  badCatFs_def lockedFs_def mainFs_def

text \<open>The path and string functions on examples of Go's documentation and tests.\<close>

lemma Clean_examples:
  "Clean '''' = ''.''"
  "Clean ''abc//def'' = ''abc/def''"
  "Clean ''abc/./def'' = ''abc/def''"
  "Clean ''abc/def/..'' = ''abc''"
  "Clean ''abc/def/../..'' = ''.''"
  "Clean ''abc/def/../../..'' = ''..''"
  "Clean ''/abc/def/../../..'' = ''/''"
  "Clean ''/../abc'' = ''/abc''"
  "Clean ''../../abc'' = ''../../abc''"
  "Clean ''abc/../../././../def'' = ''../../def''"
  "Clean ''//abc'' = ''/abc''"
  "Clean ''abc//'' = ''abc''"
  by (simp_all add: path_eval string_eval)

lemma Join_examples:
  "Join ''a'' ''b'' = ''a/b''"
  "Join ''a'' '''' = ''a''"
  "Join '''' ''b'' = ''b''"
  "Join '''' '''' = ''''"
  "Join ''a/b'' ''../../../xyz'' = ''../xyz''"
  "Join ''.'' ''AllChaosData'' = ''AllChaosData''"
  "Join ''.'' ''everything.txt'' = ''everything.txt''"
  by (simp_all add: path_eval string_eval)

lemma Dir_examples:
  "Dir ''/foo/bar/baz.js'' = ''/foo/bar''"
  "Dir ''/foo/bar/baz/'' = ''/foo/bar/baz''"
  "Dir ''dev.txt'' = ''.''"
  "Dir ''../todo.txt'' = ''..''"
  "Dir ''..'' = ''.''"
  "Dir ''/'' = ''/''"
  "Dir '''' = ''.''"
  by (simp_all add: path_eval string_eval)

lemma mkdirParent_examples:
  "mkdirParent ''a/b/c'' = ''a/b''"
  "mkdirParent ''a/b/'' = ''a''"
  "mkdirParent ''abc'' = ''''"
  "mkdirParent ''/tmp'' = ''''"
  "prefixAndSuffix ''*.zip'' = ('''', ''.zip'')"
  by (simp_all add: path_eval string_eval)

lemma strings_examples:
  "Split ''a,b,c'' CHR '','' = [''a'', ''b'', ''c'']"
  "Split '''' CHR '','' = ['''']"
  "Split '',a,,'' CHR '','' = ['''', ''a'', '''', '''']"
  "TrimSpace ''  Micro soft  '' = ''Micro soft''"
  "ToLower ''Tesla-X9'' = ''tesla-x9''"
  "HasSuffix ''a.txt'' ''.txt''"
  "HasSuffix ''.txt'' ''.txt''"
  "\<not> HasSuffix ''a.TXT'' ''.txt''"
  "\<not> HasSuffix ''txt'' ''.txt''"
  by (simp_all add: HasSuffix_def string_eval)

lemma Split_nonempty: "Split s c \<noteq> []"
  by (induction s) (auto split: list.splits)

lemma TrimSpace_Nil: "TrimSpace [] = []"
  by (simp add: TrimSpace_def)

section \<open>The selector\<close>

lemma selectionOf_Nil: "selectionOf [] = {}"
  by (simp add: selectionOf_def)

lemma selectionOf_Cons:
  "selectionOf (t # ts) =
     (if TrimSpace t \<noteq> [] then insert (ToLower (TrimSpace t)) (selectionOf ts)
      else selectionOf ts)"
  by (auto simp: selectionOf_def)

text \<open>The loop body shared by both readers adds exactly the selection of the tokens
  it is run over.\<close>

lemma collect_names:
  "foldl (\<lambda>companies name.
            (let trimmed = TrimSpace name
             in if trimmed \<noteq> [] then insert (ToLower trimmed) companies else companies))
         S ts = S \<union> selectionOf ts"
  by (induction ts arbitrary: S) (auto simp: selectionOf_Nil selectionOf_Cons Let_def)

lemma TrimSpace_snoc_space:
  assumes "isSpace c"
  shows "TrimSpace (l @ [c]) = TrimSpace l"
proof (cases "dropWhile isSpace l = []")
  case True
  then have "\<forall>x \<in> set l. isSpace x" by simp
  with assms have "\<forall>x \<in> set (l @ [c]). isSpace x" by simp
  then have a: "dropWhile isSpace (l @ [c]) = []" by (simp only: dropWhile_eq_Nil_conv)
  show ?thesis unfolding TrimSpace_def a True by simp
next
  case False
  then obtain x where "x \<in> set l" "\<not> isSpace x" by auto
  then have "dropWhile isSpace (l @ [c]) = dropWhile isSpace l @ [c]"
    by (simp add: dropWhile_append1)
  with assms show ?thesis by (simp add: TrimSpace_def)
qed

text \<open>The carriage return that the scanner drops is white space, so trimming hides
  the difference.\<close>

lemma TrimSpace_dropCR: "TrimSpace (dropCR l) = TrimSpace l"
proof (cases "l \<noteq> [] \<and> last l = CHR 0x0D")
  case True
  then have "l = butlast l @ [CHR 0x0D]" by (metis append_butlast_last_id)
  moreover have "isSpace (CHR 0x0D)" by (simp add: isSpace_def)
  ultimately have "TrimSpace l = TrimSpace (butlast l)"
    using TrimSpace_snoc_space by metis
  with True show ?thesis by (simp add: dropCR_def)
next
  case False
  then show ?thesis by (auto simp: dropCR_def)
qed

lemma scanTokens_complete: "scanTokens ls = (ts, None) \<Longrightarrow> ts = map dropCR ls"
  by (induction ls arbitrary: ts) (auto split: if_splits prod.splits)

lemma selectionOf_dropCR: "selectionOf (map dropCR ls) = selectionOf ls"
proof -
  have "TrimSpace ` set (map dropCR ls) = TrimSpace ` set ls"
    by (simp add: image_image TrimSpace_dropCR)
  then show ?thesis by (simp add: selectionOf_def)
qed

text \<open>The empty piece after a final newline, which the scanner does not return, is
  blank.\<close>

lemma selectionOf_rawLines: "selectionOf (rawLines d) = selectionOf (Split d newline)"
proof (cases "last (Split d newline) = []")
  case True
  define ps where "ps = Split d newline"
  have "ps \<noteq> []" by (simp add: ps_def Split_nonempty)
  then have "ps = butlast ps @ [last ps]" by simp
  then have "set ps = insert (last ps) (set (butlast ps))"
    by (metis Un_insert_right list.simps(15) set_append sup_bot.right_neutral empty_set)
  with True have "TrimSpace ` set ps - {[]} = TrimSpace ` set (butlast ps) - {[]}"
    by (auto simp: ps_def TrimSpace_Nil)
  with True show ?thesis by (simp add: rawLines_def selectionOf_def ps_def)
next
  case False
  then show ?thesis by (simp add: rawLines_def)
qed

lemma scanTokens_short:
  "\<forall>l \<in> set ls. length l < MaxScanTokenSize \<Longrightarrow> scanTokens ls = (map dropCR ls, None)"
  by (induction ls) auto

text \<open>A line of 64 KiB or more stops the scan; \<open>readCompanyList\<close> then returns the names
  read so far together with the error, and \<open>main\<close> ends the run.\<close>

lemma long_line_stops_scan:
  "MaxScanTokenSize \<le> length l \<Longrightarrow> scanTokens (l # ls) = ([], Some ErrTooLong)"
  by simp

lemma set_rawLines: "set (rawLines d) \<subseteq> set (Split d newline)"
  by (auto simp: rawLines_def dest: in_set_butlastD)

text \<open>
  Claim C2. For every comma-separated input, \<open>parseCompanyNames\<close> returns exactly the set
  of the lowercased, trimmed, non-empty tokens of the input. For every name-list file
  that \<open>readCompanyList\<close> reads without an error, it returns exactly the set of the
  lowercased, trimmed, non-blank lines of the file (the pieces between newlines); and
  it reads without an error every regular file that the process may read and whose
  lines are shorter than the scanner's buffer.
\<close>

theorem selector_sets:
  "parseCompanyNames input = selectionOf (Split input CHR '','')
   \<and> (readCompanyList ev st path = (r, None) \<longrightarrow>
        (\<exists>m d. files st path = Some (Regular m d)
               \<and> r = Some (selectionOf (Split d newline))))
   \<and> (files st path = Some (Regular m0 d0) \<and> mayRead ev m0
        \<and> (\<forall>l \<in> set (Split d0 newline). length l < MaxScanTokenSize) \<longrightarrow>
        readCompanyList ev st path = (Some (selectionOf (Split d0 newline)), None))"
proof (intro conjI)
  show "parseCompanyNames input = selectionOf (Split input CHR '','')"
    using collect_names [of "{}"] by (simp add: parseCompanyNames_def)
next
  show "readCompanyList ev st path = (r, None) \<longrightarrow>
        (\<exists>m d. files st path = Some (Regular m d) \<and> r = Some (selectionOf (Split d newline)))"
  proof
    assume run: "readCompanyList ev st path = (r, None)"
    then obtain m d where f: "files st path = Some (Regular m d)" and rd: "mayRead ev m"
      by (auto simp: readCompanyList_def Open_def ScanAll_def
               split: option.splits node.splits if_splits prod.splits)
    with run obtain ts where sc: "scanTokens (rawLines d) = (ts, None)"
      and r: "r = Some ({} \<union> selectionOf ts)"
      by (auto simp: readCompanyList_def Open_def ScanAll_def collect_names
               split: prod.splits)
    from sc have "ts = map dropCR (rawLines d)" by (rule scanTokens_complete)
    with r have "r = Some (selectionOf (Split d newline))"
      by (simp add: selectionOf_dropCR selectionOf_rawLines)
    with f show "\<exists>m d. files st path = Some (Regular m d)
                     \<and> r = Some (selectionOf (Split d newline))"
      by blast
  qed
next
  show "files st path = Some (Regular m0 d0) \<and> mayRead ev m0
        \<and> (\<forall>l \<in> set (Split d0 newline). length l < MaxScanTokenSize) \<longrightarrow>
        readCompanyList ev st path = (Some (selectionOf (Split d0 newline)), None)"
  proof
    assume a: "files st path = Some (Regular m0 d0) \<and> mayRead ev m0
        \<and> (\<forall>l \<in> set (Split d0 newline). length l < MaxScanTokenSize)"
    with set_rawLines [of d0] have "\<forall>l \<in> set (rawLines d0). length l < MaxScanTokenSize"
      by blast
    then have "scanTokens (rawLines d0) = (map dropCR (rawLines d0), None)"
      by (rule scanTokens_short)
    with a show "readCompanyList ev st path = (Some (selectionOf (Split d0 newline)), None)"
      by (simp add: readCompanyList_def Open_def ScanAll_def collect_names
          selectionOf_dropCR selectionOf_rawLines)
  qed
qed

theorem selector_sets_witness:
  "parseCompanyNames ''Tesla, Google,,  Microsoft'' = {''tesla'', ''google'', ''microsoft''}
   \<and> readCompanyList quietEnv demoFs ''companies.txt'' = (Some {''tesla'', ''google''}, None)
   \<and> selectionOf (Split demoNames newline) = {''tesla'', ''google''}"
proof -
  have run: "readCompanyList quietEnv demoFs ''companies.txt''
               = (Some {''tesla'', ''google''}, None)"
    by (simp add: readCompanyList_def Open_def ScanAll_def rawLines_def MaxScanTokenSize_def
        dropCR_def quietEnv_def demoFs_def demoFiles_def demoNames_def mayRead_def
        string_eval insert_commute)
  have f: "files demoFs ''companies.txt'' = Some (Regular 0x1A4 demoNames)"
    by (simp add: demoFs_def demoFiles_def)
  from selector_sets [of "''Tesla, Google,,  Microsoft''" quietEnv demoFs "''companies.txt''"
                         "Some {''tesla'', ''google''}"] run f
  have a: "parseCompanyNames ''Tesla, Google,,  Microsoft''
             = selectionOf (Split ''Tesla, Google,,  Microsoft'' CHR '','')"
    and b: "selectionOf (Split demoNames newline) = {''tesla'', ''google''}"
    by auto
  have c: "selectionOf (Split ''Tesla, Google,,  Microsoft'' CHR '','')
             = {''tesla'', ''google'', ''microsoft''}"
    by (simp add: selectionOf_def string_eval insert_commute)
  from a b c run show ?thesis by simp
qed

section \<open>What the file operations keep\<close>

lemma keeps_refl: "keeps st st"
  by (auto simp: keeps_def split: option.splits node.splits)

lemma keeps_trans: "keeps a b \<Longrightarrow> keeps b c \<Longrightarrow> keeps a c"
  unfolding keeps_def
proof (intro allI)
  fix p
  assume ab: "\<forall>p. case files a p of None \<Rightarrow> True | Some Directory \<Rightarrow> files b p = Some Directory
                 | Some (Regular m d) \<Rightarrow> \<exists>d'. files b p = Some (Regular m d')"
    and bc: "\<forall>p. case files b p of None \<Rightarrow> True | Some Directory \<Rightarrow> files c p = Some Directory
                 | Some (Regular m d) \<Rightarrow> \<exists>d'. files c p = Some (Regular m d')"
  from ab [rule_format, of p] bc [rule_format, of p]
  show "case files a p of None \<Rightarrow> True | Some Directory \<Rightarrow> files c p = Some Directory
        | Some (Regular m d) \<Rightarrow> \<exists>d'. files c p = Some (Regular m d')"
    by (auto split: option.splits node.splits)
qed

lemma keeps_at:
  "keeps st st' \<Longrightarrow>
     (case files st p of
        None \<Rightarrow> True
      | Some Directory \<Rightarrow> files st' p = Some Directory
      | Some (Regular m d) \<Rightarrow> (\<exists>d'. files st' p = Some (Regular m d')))"
  unfolding keeps_def by (erule spec)

lemma keeps_dir: "keeps st st' \<Longrightarrow> files st p = Some Directory \<Longrightarrow> files st' p = Some Directory"
  using keeps_at [of st st' p] by simp

lemma keeps_reg:
  "keeps st st' \<Longrightarrow> files st p = Some (Regular m d) \<Longrightarrow> \<exists>d'. files st' p = Some (Regular m d')"
  using keeps_at [of st st' p] by simp

lemma keeps_put_new: "files st p = None \<Longrightarrow> keeps st (put st p n)"
  by (auto simp: keeps_def put_def split: option.splits node.splits)

lemma keeps_put_reg: "files st p = Some (Regular m d) \<Longrightarrow> keeps st (put st p (Regular m d'))"
  by (auto simp: keeps_def put_def split: option.splits node.splits)

lemma keeps_Mkdir: "keeps st (fst (Mkdir st p))"
  by (auto simp: Mkdir_def keeps_refl keeps_put_new split: option.splits node.splits)

lemma keeps_mkdirChecked: "keeps st (fst (mkdirChecked st p))"
  using keeps_Mkdir [of st p]
  by (auto simp: mkdirChecked_def split: prod.splits option.splits node.splits)

lemma keeps_MkdirAll: "keeps st (fst (MkdirAll st p))"
proof (induction st p rule: MkdirAll.induct)
  case (1 st path)
  show ?case
  proof (cases "files st path")
    case (Some n)
    then show ?thesis by (cases n) (simp_all add: MkdirAll.simps [of st path] keeps_refl)
  next
    case None
    show ?thesis
    proof (cases "mkdirParent path \<noteq> []")
      case False
      with None show ?thesis
        by (simp add: MkdirAll.simps [of st path] keeps_mkdirChecked)
    next
      case True
      obtain st1 r where rec: "MkdirAll st (mkdirParent path) = (st1, r)" by force
      with 1 None True have k1: "keeps st st1" by simp
      show ?thesis
      proof (cases r)
        case (Some e)
        with None True rec k1 show ?thesis by (simp add: MkdirAll.simps [of st path])
      next
        case None': None
        have "keeps st1 (fst (mkdirChecked st1 path))" by (rule keeps_mkdirChecked)
        with k1 have "keeps st (fst (mkdirChecked st1 path))" by (rule keeps_trans)
        with None True rec None' show ?thesis by (simp add: MkdirAll.simps [of st path])
      qed
    qed
  qed
qed

lemma keeps_OpenFile_trunc: "keeps st (fst (OpenFile_trunc ev st p a perm))"
  by (auto simp: OpenFile_trunc_def keeps_refl keeps_put_new keeps_put_reg
           split: option.splits node.splits)

lemma keeps_WriteBytes: "keeps st (WriteBytes st p bs)"
  by (auto simp: WriteBytes_def keeps_refl keeps_put_reg split: option.splits node.splits)

lemma keeps_unzipEntry: "keeps st (fst (unzipEntry ev st destDir f))"
proof (cases "IsDir (fmode f)")
  case True
  then show ?thesis by (simp add: unzipEntry_def Let_def keeps_MkdirAll)
next
  case False
  define fpath where "fpath = Join destDir (fname f)"
  obtain st1 r1 where m: "MkdirAll st (Dir fpath) = (st1, r1)" by force
  obtain st2 r2 where opn: "OpenFile_trunc ev st1 fpath WriteOnly (fmode f) = (st2, r2)" by force
  from m keeps_MkdirAll [of st "Dir fpath"] have k1: "keeps st st1" by simp
  from opn keeps_OpenFile_trunc [of st1 ev fpath WriteOnly "fmode f"] have "keeps st1 st2" by simp
  with k1 have k2: "keeps st st2" by (rule keeps_trans)
  have "keeps st2 (WriteBytes st2 fpath d)" for d by (rule keeps_WriteBytes)
  with k2 have k3: "keeps st (WriteBytes st2 fpath d)" for d by (rule keeps_trans)
  from False m opn k1 k2 k3 show ?thesis
    by (auto simp: unzipEntry_def Let_def fpath_def split: option.splits payload.splits)
qed

lemma keeps_unzipEntries: "keeps st (fst (unzipEntries ev st destDir fs))"
proof (induction fs arbitrary: st)
  case Nil
  show ?case by (simp add: keeps_refl)
next
  case (Cons f fs)
  obtain st1 r where e: "unzipEntry ev st destDir f = (st1, r)" by force
  with keeps_unzipEntry [of st ev destDir f] have k1: "keeps st st1" by simp
  show ?case
  proof (cases r)
    case (Some err)
    with e k1 show ?thesis by simp
  next
    case None
    from Cons [of st1] k1 have "keeps st (fst (unzipEntries ev st1 destDir fs))"
      by (rule keeps_trans [rotated])
    with e None show ?thesis by simp
  qed
qed

lemma keeps_unzipFile: "keeps st (fst (unzipFile ev st zipFile destDir))"
  by (auto simp: unzipFile_def keeps_refl keeps_unzipEntries split: sum.splits)

lemma keeps_saveAndUnzip: "keeps st (fst (saveAndUnzip ev st tempFile resp name baseDir))"
proof (cases resp)
  case (BrokenBody d)
  then show ?thesis by (simp add: saveAndUnzip_def keeps_WriteBytes)
next
  case (Body d)
  define st0 where "st0 = WriteBytes st tempFile d"
  obtain st1 r1 where m: "MkdirAll st0 (Join baseDir name) = (st1, r1)" by force
  obtain st2 r2 where u: "unzipFile ev st1 tempFile (Join baseDir name) = (st2, r2)" by force
  have k0: "keeps st st0" unfolding st0_def by (rule keeps_WriteBytes)
  from m keeps_MkdirAll [of st0 "Join baseDir name"] have "keeps st0 st1" by simp
  with k0 have k1: "keeps st st1" by (rule keeps_trans)
  from u keeps_unzipFile [of st1 ev tempFile "Join baseDir name"] have "keeps st1 st2" by simp
  with k1 have k2: "keeps st st2" by (rule keeps_trans)
  from Body m u k1 k2 show ?thesis
    by (auto simp: saveAndUnzip_def st0_def split: option.splits)
qed

section \<open>The temporary archive file\<close>

lemma tryTemp_fresh:
  "tryTemp ev st pre suf rs = Inr (t, st1) \<Longrightarrow>
     files st t = None \<and> st1 = (put st t (Regular (createdPerm ev 0x180) []))\<lparr>rand := rand st1\<rparr>"
  by (induction rs) (auto split: option.splits node.splits)

lemma CreateTemp_fresh:
  assumes "CreateTemp ev st dir pattern = Inr (t, st1)"
  shows "files st t = None" and "files st1 t = Some (Regular (createdPerm ev 0x180) [])"
proof -
  from assms obtain pre suf rs where "tryTemp ev st pre suf rs = Inr (t, st1)"
    by (auto simp: CreateTemp_def split: prod.splits)
  then have a: "files st t = None"
    and b: "st1 = (put st t (Regular (createdPerm ev 0x180) []))\<lparr>rand := rand st1\<rparr>"
    using tryTemp_fresh by blast+
  from a show "files st t = None" .
  have "files ((put st t (Regular (createdPerm ev 0x180) []))\<lparr>rand := rand st1\<rparr>) t
          = Some (Regular (createdPerm ev 0x180) [])"
    by (simp add: put_def)
  with b show "files st1 t = Some (Regular (createdPerm ev 0x180) [])" by simp
qed

lemma temp_file_regular:
  assumes "CreateTemp ev st dir pattern = Inr (t, st1)"
  shows "\<exists>d. files (fst (saveAndUnzip ev st1 t resp name baseDir)) t
               = Some (Regular (createdPerm ev 0x180) d)"
  using keeps_reg [OF keeps_saveAndUnzip CreateTemp_fresh(2) [OF assms]] .

text \<open>
  Claim C5. Whenever a call of \<open>downloadAndUnzip\<close> gets a response and creates its
  temporary file, that file did not exist before the call, exists once it is created,
  and does not exist when the call returns, whatever the response is and whether
  the copy, the creation of the directory or the extraction fails or succeeds.
\<close>

theorem temp_file_removed:
  assumes "http_get ev url = Some resp"
    and "CreateTemp ev st [] ''*.zip'' = Inr (tempFile, st1)"
  shows "files st tempFile = None
         \<and> files st1 tempFile = Some (Regular (createdPerm ev 0x180) [])
         \<and> files (fst (downloadAndUnzip ev st url name baseDir)) tempFile = None"
proof -
  obtain st2 r where s: "saveAndUnzip ev st1 tempFile resp name baseDir = (st2, r)" by force
  with temp_file_regular [OF assms(2), of resp name baseDir]
  obtain d where "files st2 tempFile = Some (Regular (createdPerm ev 0x180) d)" by auto
  then have "files (fst (Remove st2 tempFile)) tempFile = None"
    by (simp add: Remove_def)
  with assms s have "files (fst (downloadAndUnzip ev st url name baseDir)) tempFile = None"
    by (simp add: downloadAndUnzip_def)
  with CreateTemp_fresh [OF assms(2)] show ?thesis by simp
qed

theorem temp_file_removed_witness:
  "http_get demoEnv ''https://chaos/cut.zip'' = Some (BrokenBody ''PK:te'')
   \<and> CreateTemp demoEnv demoFs [] ''*.zip'' = Inr (''/tmp/101.zip'', demoFs1)
   \<and> snd (downloadAndUnzip demoEnv demoFs ''https://chaos/tesla.zip'' ''Tesla'' ''AllChaosData'')
       = None
   \<and> files (fst (downloadAndUnzip demoEnv demoFs
                     ''https://chaos/tesla.zip'' ''Tesla'' ''AllChaosData'')) ''/tmp/101.zip''
       = None
   \<and> snd (downloadAndUnzip demoEnv demoFs ''https://chaos/cut.zip'' ''Cut'' ''AllChaosData'')
       = Some (Wrap ''error writing to temp file'' ErrBodyRead)
   \<and> files (fst (downloadAndUnzip demoEnv demoFs
                     ''https://chaos/cut.zip'' ''Cut'' ''AllChaosData'')) ''/tmp/101.zip''
       = None
   \<and> snd (downloadAndUnzip demoEnv demoFs ''https://chaos/acme.zip'' ''Acme'' ''AllChaosData'')
       = Some (Wrap ''error unzipping file'' (Wrap ''error opening zip file'' ErrZipFormat))
   \<and> files (fst (downloadAndUnzip demoEnv demoFs
                     ''https://chaos/acme.zip'' ''Acme'' ''AllChaosData'')) ''/tmp/101.zip''
       = None"
proof -
  have ct: "CreateTemp demoEnv demoFs [] ''*.zip'' = Inr (''/tmp/101.zip'', demoFs1)"
    by (simp add: demoFs1_def path_eval os_eval demo_eval string_eval)
  have g1: "http_get demoEnv ''https://chaos/tesla.zip'' = Some (Body ''PK:tesla'')"
    and g2: "http_get demoEnv ''https://chaos/cut.zip'' = Some (BrokenBody ''PK:te'')"
    and g3: "http_get demoEnv ''https://chaos/acme.zip'' = Some (Body ''<html>404</html>'')"
    by (simp_all add: demo_eval)
  have r1: "snd (downloadAndUnzip demoEnv demoFs
                   ''https://chaos/tesla.zip'' ''Tesla'' ''AllChaosData'') = None"
    by (simp add: prog_eval path_eval os_eval demo_eval string_eval)
  have r2: "snd (downloadAndUnzip demoEnv demoFs ''https://chaos/cut.zip'' ''Cut'' ''AllChaosData'')
              = Some (Wrap ''error writing to temp file'' ErrBodyRead)"
    by (simp add: prog_eval path_eval os_eval demo_eval string_eval)
  have r3: "snd (downloadAndUnzip demoEnv demoFs
                   ''https://chaos/acme.zip'' ''Acme'' ''AllChaosData'')
              = Some (Wrap ''error unzipping file'' (Wrap ''error opening zip file'' ErrZipFormat))"
    by (simp add: prog_eval path_eval os_eval demo_eval string_eval)
  note temp_file_removed [OF g1 ct, of "''Tesla''" "''AllChaosData''"]
    temp_file_removed [OF g2 ct, of "''Cut''" "''AllChaosData''"]
    temp_file_removed [OF g3 ct, of "''Acme''" "''AllChaosData''"]
  with ct g2 r1 r2 r3 show ?thesis by simp
qed

section \<open>The archive extractor\<close>

lemma unzipEntries_append:
  "unzipEntries ev st destDir (xs @ ys) =
     (case unzipEntries ev st destDir xs of
        (st1, Some e) \<Rightarrow> (st1, Some e)
      | (st1, None) \<Rightarrow> unzipEntries ev st1 destDir ys)"
  by (induction xs arbitrary: st) (auto split: prod.splits option.splits)

text \<open>A directory entry never makes the extraction fail: the result of \<open>os.MkdirAll\<close>
  is not looked at.\<close>

lemma directory_entry_never_fails:
  "IsDir (fmode f) \<Longrightarrow> snd (unzipEntry ev st destDir f) = None"
  by (simp add: unzipEntry_def Let_def)

text \<open>
  Archives that cannot be opened, and file entries. An archive that cannot be opened
  makes \<open>unzipFile\<close> return an error and change nothing. When the entries before some
  entry of the archive are written and the turn of the loop for that entry returns an
  error (the entry is then a file entry), the loop returns that error in the state that
  turn left: the turn is not repeated and no later entry of the archive is touched. \<open>downloadAndUnzip\<close> returns the
  error of \<open>unzipFile\<close> wrapped, and \<open>processURLs\<close> logs it for the entry, does not
  count the entry, and goes on. A file entry cannot be written exactly when its parent
  directories cannot be made, or the output file cannot be opened, or the entry's
  content cannot be opened or read to its end.
\<close>

theorem extraction_aborts:
  "(OpenReader ev st zipFile = Inl e0 \<longrightarrow>
      unzipFile ev st zipFile destDir = (st, Some (Wrap ''error opening zip file'' e0)))
   \<and> (OpenReader ev st zipFile = Inr (pre @ f # post)
       \<and> unzipEntries ev st destDir pre = (st1, None)
       \<and> unzipEntry ev st1 destDir f = (st2, Some e) \<longrightarrow>
         \<not> IsDir (fmode f)
         \<and> unzipEntries ev st destDir (pre @ f # post) = (st2, Some e)
         \<and> unzipFile ev st zipFile destDir = (st2, Some e))
   \<and> (http_get ev url = Some (Body d)
       \<and> CreateTemp ev s [] ''*.zip'' = Inr (t, sa)
       \<and> MkdirAll (WriteBytes sa t d) (Join baseDir name) = (sb, None)
       \<and> unzipFile ev sb t (Join baseDir name) = (sc, Some e1) \<longrightarrow>
         snd (downloadAndUnzip ev s url name baseDir) = Some (Wrap ''error unzipping file'' e1))
   \<and> (selected filterSet entry
       \<and> downloadAndUnzip ev s (URL entry) (Name entry) baseDir = (sd, Some err) \<longrightarrow>
         processEntries ev baseDir filterSet (entry # entries) (s, out, n)
           = processEntries ev baseDir filterSet entries
               (sd, out @ [Processing (Name entry), FailedToProcess (Name entry) err], n))
   \<and> (\<not> IsDir (fmode g) \<longrightarrow>
        (snd (unzipEntry ev st destDir g) \<noteq> None)
          = (snd (MkdirAll st (Dir (Join destDir (fname g)))) \<noteq> None
             \<or> snd (OpenFile_trunc ev (fst (MkdirAll st (Dir (Join destDir (fname g)))))
                      (Join destDir (fname g)) WriteOnly (fmode g)) \<noteq> None
             \<or> (\<forall>d. fbody g \<noteq> Stored d)))"
proof (intro conjI impI)
  assume "\<not> IsDir (fmode g)"
  then show "(snd (unzipEntry ev st destDir g) \<noteq> None)
          = (snd (MkdirAll st (Dir (Join destDir (fname g)))) \<noteq> None
             \<or> snd (OpenFile_trunc ev (fst (MkdirAll st (Dir (Join destDir (fname g)))))
                      (Join destDir (fname g)) WriteOnly (fmode g)) \<noteq> None
             \<or> (\<forall>d. fbody g \<noteq> Stored d))"
    by (cases "MkdirAll st (Dir (Join destDir (fname g)))";
        cases "OpenFile_trunc ev (fst (MkdirAll st (Dir (Join destDir (fname g)))))
                 (Join destDir (fname g)) WriteOnly (fmode g)";
        cases "fbody g")
       (auto simp: unzipEntry_def Let_def split: option.splits)
next
  assume "OpenReader ev st zipFile = Inl e0"
  then show "unzipFile ev st zipFile destDir = (st, Some (Wrap ''error opening zip file'' e0))"
    by (simp add: unzipFile_def)
next
  assume a: "OpenReader ev st zipFile = Inr (pre @ f # post)
       \<and> unzipEntries ev st destDir pre = (st1, None)
       \<and> unzipEntry ev st1 destDir f = (st2, Some e)"
  then show "\<not> IsDir (fmode f)"
    using directory_entry_never_fails [of f ev st1 destDir] by auto
  from a show all: "unzipEntries ev st destDir (pre @ f # post) = (st2, Some e)"
    by (simp add: unzipEntries_append)
  from a all show "unzipFile ev st zipFile destDir = (st2, Some e)"
    by (simp add: unzipFile_def)
next
  assume "http_get ev url = Some (Body d)
       \<and> CreateTemp ev s [] ''*.zip'' = Inr (t, sa)
       \<and> MkdirAll (WriteBytes sa t d) (Join baseDir name) = (sb, None)
       \<and> unzipFile ev sb t (Join baseDir name) = (sc, Some e1)"
  then show "snd (downloadAndUnzip ev s url name baseDir) = Some (Wrap ''error unzipping file'' e1)"
    by (simp add: downloadAndUnzip_def saveAndUnzip_def)
next
  assume "selected filterSet entry
       \<and> downloadAndUnzip ev s (URL entry) (Name entry) baseDir = (sd, Some err)"
  then show "processEntries ev baseDir filterSet (entry # entries) (s, out, n)
           = processEntries ev baseDir filterSet entries
               (sd, out @ [Processing (Name entry), FailedToProcess (Name entry) err], n)"
    by simp
qed

theorem extraction_aborts_witness:
  "unzipFile demoEnv demoFs ''companies.txt'' ''AllChaosData/Mixed''
     = (demoFs, Some (Wrap ''error opening zip file'' ErrZipFormat))
   \<and> OpenReader demoEnv mixedFs ''/tmp/101.zip'' = Inr ([zipA] @ zipB # [zipC])
   \<and> unzipEntries demoEnv mixedFs ''AllChaosData/Mixed'' [zipA] = (mixedFsA, None)
   \<and> unzipEntry demoEnv mixedFsA ''AllChaosData/Mixed'' zipB
       = (mixedFsB, Some (Wrap ''error writing to output file'' ErrZipEntryRead))
   \<and> unzipFile demoEnv mixedFs ''/tmp/101.zip'' ''AllChaosData/Mixed''
       = (mixedFsB, Some (Wrap ''error writing to output file'' ErrZipEntryRead))
   \<and> files mixedFsB ''AllChaosData/Mixed/a.txt'' = Some (Regular 0x1A4 ''A'')
   \<and> files mixedFsB ''AllChaosData/Mixed/b.txt'' = Some (Regular 0x1A4 ''B-par'')
   \<and> files mixedFsB ''AllChaosData/Mixed/c.txt'' = None
   \<and> snd (downloadAndUnzip demoEnv demoFs ''https://chaos/mixed.zip'' ''Mixed'' ''AllChaosData'')
       = Some (Wrap ''error unzipping file''
                (Wrap ''error writing to output file'' ErrZipEntryRead))
   \<and> snd (processEntries demoEnv ''AllChaosData'' None
              [\<lparr>Name = ''Mixed'', URL = ''https://chaos/mixed.zip''\<rparr>] (demoFs, [], 0))
       = ([Processing ''Mixed'',
           FailedToProcess ''Mixed''
             (Wrap ''error unzipping file''
               (Wrap ''error writing to output file'' ErrZipEntryRead))], 0)"
proof -
  let ?dir = "''AllChaosData/Mixed''"
  let ?e = "Wrap ''error writing to output file'' ErrZipEntryRead"
  let ?entry = "\<lparr>Name = ''Mixed'', URL = ''https://chaos/mixed.zip''\<rparr>"
  have o0: "OpenReader demoEnv demoFs ''companies.txt'' = Inl ErrZipFormat"
    by (simp add: OpenReader_def os_eval demo_eval demoNames_def)
  have o1: "OpenReader demoEnv mixedFs ''/tmp/101.zip'' = Inr ([zipA] @ zipB # [zipC])"
    by (simp add: mixedFs_def demoFs1_def OpenReader_def path_eval os_eval demo_eval string_eval)
  have u1: "unzipEntries demoEnv mixedFs ?dir [zipA] = (mixedFsA, None)"
    by (simp add: mixedFsA_def mixedFs_def demoFs1_def prog_eval path_eval os_eval demo_eval
        string_eval)
  have u2: "unzipEntry demoEnv mixedFsA ?dir zipB = (mixedFsB, Some ?e)"
    by (simp add: mixedFsB_def mixedFsA_def mixedFs_def demoFs1_def prog_eval path_eval
        os_eval demo_eval string_eval)
  have g: "http_get demoEnv ''https://chaos/mixed.zip'' = Some (Body ''PK:mixed'')"
    by (simp add: demo_eval)
  have ct: "CreateTemp demoEnv demoFs [] ''*.zip'' = Inr (''/tmp/101.zip'', demoFs1)"
    by (simp add: demoFs1_def path_eval os_eval demo_eval string_eval)
  have mk: "MkdirAll (WriteBytes demoFs1 ''/tmp/101.zip'' ''PK:mixed'') (Join ''AllChaosData'' ''Mixed'')
              = (mixedFs, None)"
    by (simp add: mixedFs_def demoFs1_def path_eval os_eval demo_eval string_eval)
  have j: "Join ''AllChaosData'' ''Mixed'' = ?dir"
    by (simp add: path_eval string_eval)
  note inst = extraction_aborts [where ev = demoEnv and destDir = ?dir and pre = "[zipA]"
      and f = zipB and post = "[zipC]" and ?st1.0 = mixedFsA and ?st2.0 = mixedFsB and e = ?e
      and url = "''https://chaos/mixed.zip''" and d = "''PK:mixed''" and s = demoFs
      and t = "''/tmp/101.zip''" and sa = demoFs1 and baseDir = "''AllChaosData''"
      and name = "''Mixed''" and sb = mixedFs and ?e1.0 = ?e and filterSet = None
      and entry = ?entry and entries = "[]" and out = "[]" and n = 0]
  from inst [where st = demoFs and zipFile = "''companies.txt''" and ?e0.0 = ErrZipFormat] o0
  have c1: "unzipFile demoEnv demoFs ''companies.txt'' ?dir
              = (demoFs, Some (Wrap ''error opening zip file'' ErrZipFormat))"
    by simp
  from inst [where st = mixedFs and zipFile = "''/tmp/101.zip''" and sc = mixedFsB] o1 u1 u2
  have c2: "unzipFile demoEnv mixedFs ''/tmp/101.zip'' ?dir = (mixedFsB, Some ?e)"
    by simp
  from inst [where st = mixedFs and zipFile = "''/tmp/101.zip''" and sc = mixedFsB] g ct mk c2 j
  have c3: "snd (downloadAndUnzip demoEnv demoFs ''https://chaos/mixed.zip'' ''Mixed'' ''AllChaosData'')
              = Some (Wrap ''error unzipping file'' ?e)"
    by simp
  obtain sd where d: "downloadAndUnzip demoEnv demoFs (URL ?entry) (Name ?entry) ''AllChaosData''
                        = (sd, Some (Wrap ''error unzipping file'' ?e))"
    using c3 by (cases "downloadAndUnzip demoEnv demoFs ''https://chaos/mixed.zip'' ''Mixed''
                          ''AllChaosData''") auto
  from inst [where st = mixedFs and zipFile = "''/tmp/101.zip''" and sc = mixedFsB and sd = sd
      and err = "Wrap ''error unzipping file'' ?e"] d
  have c4: "snd (processEntries demoEnv ''AllChaosData'' None [?entry] (demoFs, [], 0))
              = ([Processing ''Mixed'', FailedToProcess ''Mixed'' (Wrap ''error unzipping file'' ?e)], 0)"
    by (simp add: selected_def)
  have f: "files mixedFsB ''AllChaosData/Mixed/a.txt'' = Some (Regular 0x1A4 ''A'')"
    "files mixedFsB ''AllChaosData/Mixed/b.txt'' = Some (Regular 0x1A4 ''B-par'')"
    "files mixedFsB ''AllChaosData/Mixed/c.txt'' = None"
    by (simp_all add: mixedFsB_def mixedFsA_def mixedFs_def demoFs1_def path_eval os_eval
        demo_eval string_eval)
  from c1 o1 u1 u2 c2 f c3 c4 show ?thesis by simp
qed

text \<open>
  Claim C4. For an entry that is a directory the claim does not hold of the code.
  When the entries before a directory entry are written and
  \<open>os.MkdirAll\<close> cannot make the directory (it returns an error, as it does when the
  path holds a regular file), the turn of the loop returns no error all the same: the
  result of the call is dropped (lines 211 to 214 of the source), whereas the same
  call for the parent directory of a file entry, two lines below, is checked. The loop
  goes on with the entries after it, from the state the call left, and \<open>unzipFile\<close>
  returns what they give: no error at all when they are written.
\<close>

theorem directory_entry_error_dropped:
  "OpenReader ev st zipFile = Inr (pre @ f # post)
   \<and> unzipEntries ev st destDir pre = (st1, None)
   \<and> IsDir (fmode f)
   \<and> MkdirAll st1 (Join destDir (fname f)) = (st2, Some e) \<longrightarrow>
     unzipEntry ev st1 destDir f = (st2, None)
     \<and> unzipEntries ev st destDir (pre @ f # post) = unzipEntries ev st2 destDir post
     \<and> unzipFile ev st zipFile destDir = unzipEntries ev st2 destDir post
     \<and> (unzipEntries ev st2 destDir post = (st3, None) \<longrightarrow>
          unzipFile ev st zipFile destDir = (st3, None))"
proof (intro impI)
  assume a: "OpenReader ev st zipFile = Inr (pre @ f # post)
   \<and> unzipEntries ev st destDir pre = (st1, None)
   \<and> IsDir (fmode f)
   \<and> MkdirAll st1 (Join destDir (fname f)) = (st2, Some e)"
  then have turn: "unzipEntry ev st1 destDir f = (st2, None)"
    by (simp add: unzipEntry_def Let_def)
  with a have all: "unzipEntries ev st destDir (pre @ f # post) = unzipEntries ev st2 destDir post"
    by (simp add: unzipEntries_append)
  with a have "unzipFile ev st zipFile destDir = unzipEntries ev st2 destDir post"
    by (simp add: unzipFile_def)
  with turn all show "unzipEntry ev st1 destDir f = (st2, None)
     \<and> unzipEntries ev st destDir (pre @ f # post) = unzipEntries ev st2 destDir post
     \<and> unzipFile ev st zipFile destDir = unzipEntries ev st2 destDir post
     \<and> (unzipEntries ev st2 destDir post = (st3, None) \<longrightarrow>
          unzipFile ev st zipFile destDir = (st3, None))"
    by simp
qed

text \<open>
  The archive of the entry \<open>Clash\<close>: the file \<open>data\<close> is written, the directory
  \<open>data/\<close> cannot be made over it, and the extraction goes on to \<open>c.txt\<close> and returns
  no error; \<open>downloadAndUnzip\<close> returns no error, and the loop of \<open>processURLs\<close> counts
  the entry as completed and logs no failure.
\<close>

theorem directory_entry_error_dropped_witness:
  "OpenReader clashEnv clashFs ''/tmp/101.zip'' = Inr ([zipData] @ zipDataDir # [zipC])
   \<and> unzipEntries clashEnv clashFs ''AllChaosData/Clash'' [zipData] = (clashFsA, None)
   \<and> IsDir (fmode zipDataDir)
   \<and> MkdirAll clashFsA (Join ''AllChaosData/Clash'' (fname zipDataDir)) = (clashFsA, Some ENOTDIR)
   \<and> unzipEntry clashEnv clashFsA ''AllChaosData/Clash'' zipDataDir = (clashFsA, None)
   \<and> unzipFile clashEnv clashFs ''/tmp/101.zip'' ''AllChaosData/Clash'' = (clashFsC, None)
   \<and> files clashFsC ''AllChaosData/Clash/data'' = Some (Regular 0x1A4 ''D'')
   \<and> files clashFsC ''AllChaosData/Clash/c.txt'' = Some (Regular 0x1A4 ''C'')
   \<and> snd (downloadAndUnzip clashEnv demoFs ''https://chaos/clash.zip'' ''Clash'' ''AllChaosData'')
       = None
   \<and> snd (processEntries clashEnv ''AllChaosData'' None
              [\<lparr>Name = ''Clash'', URL = ''https://chaos/clash.zip''\<rparr>] (demoFs, [], 0))
       = ([Processing ''Clash''], 1)"
proof -
  let ?dir = "''AllChaosData/Clash''"
  note clash_eval = clashEnv_def clashZip_def zipData_def zipDataDir_def clashFs_def
    clashFsA_def clashFsC_def demoFs1_def
  have o1: "OpenReader clashEnv clashFs ''/tmp/101.zip'' = Inr ([zipData] @ zipDataDir # [zipC])"
    by (simp add: clashFs_def clashEnv_def clashZip_def demoFs1_def OpenReader_def path_eval
        os_eval demo_eval string_eval)
  have u1: "unzipEntries clashEnv clashFs ?dir [zipData] = (clashFsA, None)"
    by (simp add: clash_eval prog_eval path_eval os_eval demo_eval string_eval)
  have isd: "IsDir (fmode zipDataDir)"
    by (simp add: zipDataDir_def os_eval)
  have mk: "MkdirAll clashFsA (Join ?dir (fname zipDataDir)) = (clashFsA, Some ENOTDIR)"
    by (simp add: clash_eval path_eval os_eval demo_eval string_eval)
  have u3: "unzipEntries clashEnv clashFsA ?dir [zipC] = (clashFsC, None)"
    by (simp add: clash_eval prog_eval path_eval os_eval demo_eval string_eval)
  from o1 u1 isd mk have h: "OpenReader clashEnv clashFs ''/tmp/101.zip''
         = Inr ([zipData] @ zipDataDir # [zipC])
   \<and> unzipEntries clashEnv clashFs ?dir [zipData] = (clashFsA, None)
   \<and> IsDir (fmode zipDataDir)
   \<and> MkdirAll clashFsA (Join ?dir (fname zipDataDir)) = (clashFsA, Some ENOTDIR)"
    by (intro conjI)
  note r = directory_entry_error_dropped [where ev = clashEnv and st = clashFs
      and zipFile = "''/tmp/101.zip''" and pre = "[zipData]" and f = zipDataDir
      and post = "[zipC]" and destDir = ?dir and ?st1.0 = clashFsA and ?st2.0 = clashFsA
      and e = ENOTDIR and ?st3.0 = clashFsC, THEN mp, OF h]
  from r have c1: "unzipEntry clashEnv clashFsA ?dir zipDataDir = (clashFsA, None)"
    by (rule conjunct1)
  from r [THEN conjunct2, THEN conjunct2, THEN conjunct2, THEN mp, OF u3]
  have c2: "unzipFile clashEnv clashFs ''/tmp/101.zip'' ?dir = (clashFsC, None)" .
  have f: "files clashFsC ''AllChaosData/Clash/data'' = Some (Regular 0x1A4 ''D'')"
    "files clashFsC ''AllChaosData/Clash/c.txt'' = Some (Regular 0x1A4 ''C'')"
    by (simp_all add: clash_eval path_eval os_eval demo_eval string_eval)
  have d: "snd (downloadAndUnzip clashEnv demoFs ''https://chaos/clash.zip'' ''Clash''
                  ''AllChaosData'') = None"
    by (simp add: clash_eval prog_eval path_eval os_eval demo_eval string_eval)
  have p: "snd (processEntries clashEnv ''AllChaosData'' None
              [\<lparr>Name = ''Clash'', URL = ''https://chaos/clash.zip''\<rparr>] (demoFs, [], 0))
       = ([Processing ''Clash''], 1)"
    by (simp add: clash_eval loop_eval prog_eval path_eval os_eval demo_eval string_eval)
  show ?thesis
    by (insert o1 u1 isd mk c1 c2 f d p, (intro conjI; assumption))
qed

subsection \<open>Directories appear, files are overwritten\<close>







text \<open>A successful \<open>os.MkdirAll\<close> leaves a directory at its path.\<close>

lemma mkdirChecked_ok: "mkdirChecked st p = (st', None) \<Longrightarrow> files st' p = Some Directory"
  by (auto simp: mkdirChecked_def Mkdir_def put_def split: prod.splits option.splits node.splits)

lemma MkdirAll_ok: "MkdirAll st p = (st', None) \<Longrightarrow> files st' p = Some Directory"
  by (subst (asm) MkdirAll.simps)
     (auto split: option.splits node.splits if_splits prod.splits dest: mkdirChecked_ok)


lemma OpenFile_trunc_ok:
  "OpenFile_trunc ev st p a perm = (st', None) \<Longrightarrow>
     files st (Dir p) = Some Directory \<and> files st p = None
       \<and> st' = put st p (Regular (createdPerm ev perm) [])
     \<or> (\<exists>m d. files st p = Some (Regular m d) \<and> mayOpen ev a m \<and> st' = put st p (Regular m []))"
  by (auto simp: OpenFile_trunc_def split: option.splits node.splits if_splits)

lemma WriteBytes_put: "WriteBytes (put st p (Regular m d)) p bs = put st p (Regular m (d @ bs))"
  by (simp add: WriteBytes_def put_def)

text \<open>The exact effect of a successful turn of the loop on a file entry.\<close>

lemma unzipEntry_file_ok:
  assumes "\<not> IsDir (fmode f)" and "unzipEntry ev st destDir f = (st', None)"
  shows "\<exists>st1 m d. MkdirAll st (Dir (Join destDir (fname f))) = (st1, None)
           \<and> fbody f = Stored d
           \<and> st' = put st1 (Join destDir (fname f)) (Regular m d)
           \<and> (files st1 (Join destDir (fname f)) = None \<and> m = createdPerm ev (fmode f)
              \<or> (\<exists>d0. files st1 (Join destDir (fname f)) = Some (Regular m d0))
                 \<and> mayWrite ev m)"
proof -
  define fpath where "fpath = Join destDir (fname f)"
  obtain st1 r1 where m: "MkdirAll st (Dir fpath) = (st1, r1)" by force
  obtain st2 r2 where opn: "OpenFile_trunc ev st1 fpath WriteOnly (fmode f) = (st2, r2)" by force
  from assms m opn have r1: "r1 = None" and r2: "r2 = None"
    by (auto simp: unzipEntry_def Let_def fpath_def split: option.splits)
  from assms m opn r1 r2 obtain d where d: "fbody f = Stored d" and st': "st' = WriteBytes st2 fpath d"
    by (auto simp: unzipEntry_def Let_def fpath_def split: payload.splits)
  from OpenFile_trunc_ok [OF opn [unfolded r2]]
  have "\<exists>m. st2 = put st1 fpath (Regular m [])
           \<and> (files st1 fpath = None \<and> m = createdPerm ev (fmode f)
              \<or> (\<exists>d0. files st1 fpath = Some (Regular m d0)) \<and> mayWrite ev m)"
    by (auto simp: mayOpen_def)
  then obtain m0 where st2: "st2 = put st1 fpath (Regular m0 [])"
    and c: "files st1 fpath = None \<and> m0 = createdPerm ev (fmode f)
              \<or> (\<exists>d0. files st1 fpath = Some (Regular m0 d0)) \<and> mayWrite ev m0"
    by blast
  from st' st2 have "st' = put st1 fpath (Regular m0 d)" by (simp add: WriteBytes_put)
  with m r1 d c show ?thesis unfolding fpath_def by blast
qed

lemma put_other: "q \<noteq> p \<Longrightarrow> files (put st p n) q = files st q"
  by (simp add: put_def)

lemma put_same: "files (put st p n) p = Some n"
  by (simp add: put_def)








text \<open>
  Claim C8. Whenever the turn of the loop for a file entry succeeds, the entry's bytes
  are at \<open>filepath.Join destDir f.Name\<close>, whatever the name is: nothing compares that
  path with the destination. And there is an entry whose name has a \<open>..\<close> element and
  whose extraction succeeds at a path that is not inside the destination directory.
\<close>

theorem no_destination_check:
  "(\<not> IsDir (fmode f) \<and> unzipEntry ev st destDir f = (st', None) \<longrightarrow>
      (\<exists>m d. fbody f = Stored d \<and> files st' (Join destDir (fname f)) = Some (Regular m d)))
   \<and> (\<exists>ev st destDir f. ''..'' \<in> set (Split (fname f) slash) \<and> \<not> IsDir (fmode f)
          \<and> snd (unzipEntry ev st destDir f) = None
          \<and> \<not> inside destDir (Join destDir (fname f)))"
proof (intro conjI impI)
  assume "\<not> IsDir (fmode f) \<and> unzipEntry ev st destDir f = (st', None)"
  then have "\<not> IsDir (fmode f)" and "unzipEntry ev st destDir f = (st', None)" by simp_all
  from unzipEntry_file_ok [OF this]
  show "\<exists>m d. fbody f = Stored d \<and> files st' (Join destDir (fname f)) = Some (Regular m d)"
    by (auto simp: put_def)
next
  have "''..'' \<in> set (Split (fname zipEscape) slash) \<and> \<not> IsDir (fmode zipEscape)
          \<and> snd (unzipEntry quietEnv outFs ''out'' zipEscape) = None
          \<and> \<not> inside ''out'' (Join ''out'' (fname zipEscape))"
    by (simp add: inside_def prog_eval path_eval os_eval demo_eval string_eval)
  then show "\<exists>ev st destDir f. ''..'' \<in> set (Split (fname f) slash) \<and> \<not> IsDir (fmode f)
          \<and> snd (unzipEntry ev st destDir f) = None
          \<and> \<not> inside destDir (Join destDir (fname f))"
    by blast
qed

theorem no_destination_check_witness:
  "''..'' \<in> set (Split (fname zipEscape) slash)
   \<and> Join ''out'' (fname zipEscape) = ''escaped.txt''
   \<and> \<not> inside ''out'' ''escaped.txt''
   \<and> unzipEntry quietEnv outFs ''out'' zipEscape
       = (put outFs ''escaped.txt'' (Regular 0x1A4 ''owned''), None)
   \<and> (\<exists>m d. fbody zipEscape = Stored d
          \<and> files (put outFs ''escaped.txt'' (Regular 0x1A4 ''owned'')) ''escaped.txt''
              = Some (Regular m d))"
proof -
  have j: "Join ''out'' (fname zipEscape) = ''escaped.txt''"
    by (simp add: path_eval demo_eval string_eval)
  have a: "''..'' \<in> set (Split (fname zipEscape) slash)" "\<not> inside ''out'' ''escaped.txt''"
    "\<not> IsDir (fmode zipEscape)"
    by (simp_all add: inside_def os_eval demo_eval string_eval)
  have r: "unzipEntry quietEnv outFs ''out'' zipEscape
             = (put outFs ''escaped.txt'' (Regular 0x1A4 ''owned''), None)"
    by (simp add: prog_eval path_eval os_eval demo_eval string_eval)
  from no_destination_check [of zipEscape quietEnv outFs "''out''"
      "put outFs ''escaped.txt'' (Regular 0x1A4 ''owned'')"] a r
  have "\<exists>m d. fbody zipEscape = Stored d
          \<and> files (put outFs ''escaped.txt'' (Regular 0x1A4 ''owned''))
               (Join ''out'' (fname zipEscape)) = Some (Regular m d)"
    by simp
  with j a r show ?thesis by simp
qed

section \<open>The item processor\<close>

lemma attempted_append: "attempted (xs @ ys) = attempted xs @ attempted ys"
  by (induction xs rule: attempted.induct) auto

lemma failed_append: "failed (xs @ ys) = failed xs @ failed ys"
  by (induction xs rule: failed.induct) auto

lemma processEntries_append:
  "processEntries ev baseDir filterSet (xs @ ys) (st, out, n) =
     processEntries ev baseDir filterSet ys (processEntries ev baseDir filterSet xs (st, out, n))"
  by (induction xs arbitrary: st out n) (auto split: prod.splits option.splits)

text \<open>The loop with a filter is the loop with no filter on the selected entries.\<close>

lemma processEntries_filter:
  "processEntries ev baseDir filterSet entries (st, out, n) =
     processEntries ev baseDir None (filter (selected filterSet) entries) (st, out, n)"
proof (induction entries arbitrary: st out n)
  case Nil
  show ?case by simp
next
  case (Cons entry entries)
  have all: "selected None entry" by (simp add: selected_def)
  show ?case
  proof (cases "selected filterSet entry")
    case False
    with Cons.IH show ?thesis by simp
  next
    case True
    with all Cons.IH show ?thesis
      by (cases "downloadAndUnzip ev st (URL entry) (Name entry) baseDir")
         (simp split: option.splits)
  qed
qed

lemma tryTemp_files:
  "tryTemp ev st pre suf rs = Inr (t, st1) \<Longrightarrow>
     files st1 = (files st)(t \<mapsto> Regular (createdPerm ev 0x180) [])"
  by (induction rs) (auto simp: put_def split: option.splits node.splits)

lemma CreateTemp_files:
  "CreateTemp ev st dir pattern = Inr (t, st1) \<Longrightarrow>
     files st1 = (files st)(t \<mapsto> Regular (createdPerm ev 0x180) [])"
  by (auto simp: CreateTemp_def split: prod.splits dest: tryTemp_files)

text \<open>A call of \<open>downloadAndUnzip\<close> removes no directory.\<close>

lemma downloadAndUnzip_dirs:
  assumes "files st p = Some Directory"
  shows "files (fst (downloadAndUnzip ev st url name baseDir)) p = Some Directory"
proof (cases "http_get ev url")
  case None
  with assms show ?thesis by (simp add: downloadAndUnzip_def)
next
  case (Some resp)
  show ?thesis
  proof (cases "CreateTemp ev st [] ''*.zip''")
    case (Inl e)
    with Some assms show ?thesis by (simp add: downloadAndUnzip_def)
  next
    case (Inr x)
    obtain t st1 where x: "x = (t, st1)" by (cases x)
    with Inr have ct: "CreateTemp ev st [] ''*.zip'' = Inr (t, st1)" by simp
    obtain st2 r where s: "saveAndUnzip ev st1 t resp name baseDir = (st2, r)" by force
    from CreateTemp_fresh(1) [OF ct] assms have ne: "p \<noteq> t" by auto
    with CreateTemp_files [OF ct] assms have "files st1 p = Some Directory" by simp
    with s keeps_saveAndUnzip [of st1 ev t resp name baseDir] have "files st2 p = Some Directory"
      by (auto dest: keeps_dir)
    with ne have "files (fst (Remove st2 t)) p = Some Directory"
      by (auto simp: Remove_def split: option.splits node.splits)
    with Some ct s show ?thesis by (simp add: downloadAndUnzip_def)
  qed
qed

text \<open>A call without an error leaves the directory of the entry.\<close>

lemma downloadAndUnzip_ok_dir:
  assumes "downloadAndUnzip ev st url name baseDir = (st', None)"
  shows "files st' (Join baseDir name) = Some Directory"
proof -
  from assms obtain resp where g: "http_get ev url = Some resp"
    by (auto simp: downloadAndUnzip_def split: option.splits)
  with assms obtain t st1 where ct: "CreateTemp ev st [] ''*.zip'' = Inr (t, st1)"
    by (auto simp: downloadAndUnzip_def split: sum.splits)
  obtain st2 r where s: "saveAndUnzip ev st1 t resp name baseDir = (st2, r)" by force
  with assms g ct have r: "r = None" and st': "st' = fst (Remove st2 t)"
    by (auto simp: downloadAndUnzip_def)
  from s r obtain d sa where b: "resp = Body d"
    and mk: "MkdirAll (WriteBytes st1 t d) (Join baseDir name) = (sa, None)"
    and u: "unzipFile ev sa t (Join baseDir name) = (st2, None)"
    by (auto simp: saveAndUnzip_def split: response.splits prod.splits option.splits)
  from MkdirAll_ok [OF mk] have "files sa (Join baseDir name) = Some Directory" .
  with u keeps_unzipFile [of sa ev t "Join baseDir name"]
  have d2: "files st2 (Join baseDir name) = Some Directory"
    by (auto dest: keeps_dir)
  from temp_file_regular [OF ct, of resp name baseDir] s
  obtain dd where "files st2 t = Some (Regular (createdPerm ev 0x180) dd)" by auto
  with d2 have "files (fst (Remove st2 t)) (Join baseDir name) = Some Directory"
    by (auto simp: Remove_def)
  with st' show ?thesis by simp
qed

lemma processEntries_summary:
  "processEntries ev baseDir filterSet entries (st, out, n) = (st', out', n') \<Longrightarrow>
     \<exists>fl. failed out' = failed out @ fl
        \<and> attempted out' = attempted out @ map Name (filter (selected filterSet) entries)
        \<and> n' + length fl = n + length (filter (selected filterSet) entries)
        \<and> (\<forall>p. files st p = Some Directory \<longrightarrow> files st' p = Some Directory)
        \<and> (fl = [] \<longrightarrow> (\<forall>e \<in> set (filter (selected filterSet) entries).
                           files st' (Join baseDir (Name e)) = Some Directory))"
proof (induction entries arbitrary: st out n)
  case Nil
  then show ?case by simp
next
  case (Cons entry entries)
  show ?case
  proof (cases "selected filterSet entry")
    case False
    with Cons.prems have "processEntries ev baseDir filterSet entries (st, out, n) = (st', out', n')"
      by simp
    from Cons.IH [OF this] False show ?thesis by simp
  next
    case True
    obtain st1 r where d: "downloadAndUnzip ev st (URL entry) (Name entry) baseDir = (st1, r)"
      by force
    from downloadAndUnzip_dirs [of st _ ev "URL entry" "Name entry" baseDir] d
    have keep1: "\<forall>p. files st p = Some Directory \<longrightarrow> files st1 p = Some Directory"
      by simp
    show ?thesis
    proof (cases r)
      case (Some err)
      with Cons.prems True d
      have "processEntries ev baseDir filterSet entries
              (st1, out @ [Processing (Name entry), FailedToProcess (Name entry) err], n)
            = (st', out', n')"
        by simp
      from Cons.IH [OF this] obtain fl where
        "failed out' = failed (out @ [Processing (Name entry), FailedToProcess (Name entry) err]) @ fl"
        "attempted out' = attempted (out @ [Processing (Name entry), FailedToProcess (Name entry) err])
                           @ map Name (filter (selected filterSet) entries)"
        "n' + length fl = n + length (filter (selected filterSet) entries)"
        "\<forall>p. files st1 p = Some Directory \<longrightarrow> files st' p = Some Directory"
        by blast
      with True keep1 show ?thesis
        by (intro exI [of _ "Name entry # fl"]) (simp add: failed_append attempted_append)
    next
      case None
      with Cons.prems True d
      have "processEntries ev baseDir filterSet entries
              (st1, out @ [Processing (Name entry)], n + 1) = (st', out', n')"
        by simp
      from Cons.IH [OF this] obtain fl where
        a: "failed out' = failed (out @ [Processing (Name entry)]) @ fl"
        "attempted out' = attempted (out @ [Processing (Name entry)])
                           @ map Name (filter (selected filterSet) entries)"
        "n' + length fl = n + 1 + length (filter (selected filterSet) entries)"
        and k: "\<forall>p. files st1 p = Some Directory \<longrightarrow> files st' p = Some Directory"
        and dirs: "fl = [] \<longrightarrow> (\<forall>e \<in> set (filter (selected filterSet) entries).
                           files st' (Join baseDir (Name e)) = Some Directory)"
        by blast
      from d None have "files st1 (Join baseDir (Name entry)) = Some Directory"
        by (auto dest: downloadAndUnzip_ok_dir)
      with k have "files st' (Join baseDir (Name entry)) = Some Directory" by simp
      with a k dirs True keep1 show ?thesis
        by (intro exI [of _ fl]) (simp add: failed_append attempted_append)
    qed
  qed
qed

text \<open>
  Claim C3, as amended. With no filter every entry is selected, and with a Selection
  Set exactly the entries whose lowercased name is a member. The loop announces exactly
  the selected entries, in the order of the index. The completed count it ends with,
  plus the number of failures it logged, is the number of selected entries: the count
  is the number of entries that succeeded. When no failure was logged, the count is the
  number \<open>M\<close> of selected entries and the directory \<open>filepath.Join baseDir name\<close> of each
  of them is a directory afterwards; these are \<open>M\<close> different directories when the
  paths of the selected entries are pairwise different. \<open>processURLs\<close> reports that count.
  The entries that are not selected are not processed at all: the loop ends in the
  state, with the output and with the count of the loop run with no filter on the
  selected entries alone, and an index with an unselected entry taken out of it, at any
  place, gives the same state, output and count.
\<close>

theorem selection_and_count:
  "selected None entry
   \<and> selected (Some names) entry = (ToLower (Name entry) \<in> names)
   \<and> (processEntries ev baseDir filterSet entries (st, out, n) = (st', out', n') \<longrightarrow>
        attempted out' = attempted out @ map Name (filter (selected filterSet) entries)
        \<and> n' + length (failed out')
            = n + length (failed out) + length (filter (selected filterSet) entries)
        \<and> (length (failed out') = length (failed out) \<longrightarrow>
              n' = n + length (filter (selected filterSet) entries)
              \<and> (\<forall>e \<in> set (filter (selected filterSet) entries).
                     files st' (Join baseDir (Name e)) = Some Directory)
              \<and> (distinct (map (\<lambda>e. Join baseDir (Name e)) (filter (selected filterSet) entries)) \<longrightarrow>
                   card ((\<lambda>e. Join baseDir (Name e)) ` set (filter (selected filterSet) entries))
                     = length (filter (selected filterSet) entries))))
   \<and> (http_get ev url = Some resp \<and> decodeIndex ev resp = Some entries
        \<and> processEntries ev baseDir filterSet entries (st, out, 0) = (st', out', n') \<longrightarrow>
          processURLs ev (st, out) url baseDir filterSet = ((st', out' @ [Completed n']), None))
   \<and> processEntries ev baseDir filterSet entries (st, out, n)
       = processEntries ev baseDir None (filter (selected filterSet) entries) (st, out, n)
   \<and> (\<not> selected filterSet entry \<longrightarrow>
        processEntries ev baseDir filterSet (before @ entry # later) (st, out, n)
          = processEntries ev baseDir filterSet (before @ later) (st, out, n))"
proof (intro conjI impI)
  show "selected None entry" by (simp add: selected_def)
  show "selected (Some names) entry = (ToLower (Name entry) \<in> names)" by (simp add: selected_def)
next
  assume run: "processEntries ev baseDir filterSet entries (st, out, n) = (st', out', n')"
  from processEntries_summary [OF run] obtain fl where
    f: "failed out' = failed out @ fl"
    and a: "attempted out' = attempted out @ map Name (filter (selected filterSet) entries)"
    and c: "n' + length fl = n + length (filter (selected filterSet) entries)"
    and d: "fl = [] \<longrightarrow> (\<forall>e \<in> set (filter (selected filterSet) entries).
                           files st' (Join baseDir (Name e)) = Some Directory)"
    by blast
  from a show "attempted out' = attempted out @ map Name (filter (selected filterSet) entries)" .
  from f c show "n' + length (failed out')
            = n + length (failed out) + length (filter (selected filterSet) entries)"
    by simp
  {
    assume "length (failed out') = length (failed out)"
    with f have fl: "fl = []" by simp
    with c show "n' = n + length (filter (selected filterSet) entries)" by simp
    from fl d show "\<forall>e \<in> set (filter (selected filterSet) entries).
                     files st' (Join baseDir (Name e)) = Some Directory"
      by simp
  }
  {
    assume "distinct (map (\<lambda>e. Join baseDir (Name e)) (filter (selected filterSet) entries))"
    from distinct_card [OF this]
    show "card ((\<lambda>e. Join baseDir (Name e)) ` set (filter (selected filterSet) entries))
            = length (filter (selected filterSet) entries)"
      by simp
  }
next
  assume "http_get ev url = Some resp \<and> decodeIndex ev resp = Some entries
        \<and> processEntries ev baseDir filterSet entries (st, out, 0) = (st', out', n')"
  then show "processURLs ev (st, out) url baseDir filterSet = ((st', out' @ [Completed n']), None)"
    by (simp add: processURLs_def)
next
  show "processEntries ev baseDir filterSet entries (st, out, n)
       = processEntries ev baseDir None (filter (selected filterSet) entries) (st, out, n)"
    by (rule processEntries_filter)
next
  assume "\<not> selected filterSet entry"
  then have "filter (selected filterSet) (before @ entry # later)
               = filter (selected filterSet) (before @ later)"
    by simp
  then show "processEntries ev baseDir filterSet (before @ entry # later) (st, out, n)
          = processEntries ev baseDir filterSet (before @ later) (st, out, n)"
    by (simp add: processEntries_filter [of ev baseDir filterSet])
qed


text \<open>
  The claim as stated fails for an index that lists a name twice: both entries are
  selected and both succeed (\<open>N = M = 2\<close>, completed count 2), and one directory has
  appeared.
\<close>

theorem selection_and_count_counterexample:
  "length dupIndex = 2
   \<and> length (filter (selected None) dupIndex) = 2
   \<and> snd (processURLs dupEnv (baseFs, []) jsonURL ''AllChaosData'' None) = None
   \<and> snd (fst (processURLs dupEnv (baseFs, []) jsonURL ''AllChaosData'' None))
       = [Processing ''Tesla'', Processing ''Tesla'', Completed 2]
   \<and> {p. files baseFs p = None
          \<and> files (fst (fst (processURLs dupEnv (baseFs, []) jsonURL ''AllChaosData'' None))) p
              = Some Directory}
       = {''AllChaosData/Tesla''}"
proof -
  have r: "snd (processURLs dupEnv (baseFs, []) jsonURL ''AllChaosData'' None) = None"
    "snd (fst (processURLs dupEnv (baseFs, []) jsonURL ''AllChaosData'' None))
       = [Processing ''Tesla'', Processing ''Tesla'', Completed 2]"
    by (simp_all add: loop_eval prog_eval path_eval os_eval demo_eval string_eval)
  have f: "files (fst (fst (processURLs dupEnv (baseFs, []) jsonURL ''AllChaosData'' None)))
             = (files baseFs)(''AllChaosData/Tesla'' \<mapsto> Directory,
                 ''AllChaosData/Tesla/tesla.txt'' \<mapsto> Regular 0x1A4 ''tesla.com'')"
    by (rule ext) (simp add: loop_eval prog_eval path_eval os_eval demo_eval string_eval)
  have s: "{p. files baseFs p = None
          \<and> files (fst (fst (processURLs dupEnv (baseFs, []) jsonURL ''AllChaosData'' None))) p
              = Some Directory} = {''AllChaosData/Tesla''}"
    unfolding f by (auto simp: baseFs_def put_def demoFs_def demoFiles_def split: if_splits)
  have l: "length dupIndex = 2" "length (filter (selected None) dupIndex) = 2"
    by (simp_all add: dupIndex_def selected_def)
  from l r s show ?thesis by simp
qed

theorem selection_and_count_witness:
  "snd (processEntries demoEnv ''AllChaosData'' (Some {''tesla'', ''google''}) demoIndex
          (baseFs, [], 0))
     = ([Processing ''Tesla'', Processing ''Google''], 2)
   \<and> attempted [Processing ''Tesla'', Processing ''Google''] = [''Tesla'', ''Google'']
   \<and> map Name (filter (selected (Some {''tesla'', ''google''})) demoIndex) = [''Tesla'', ''Google'']
   \<and> files (fst (processEntries demoEnv ''AllChaosData'' (Some {''tesla'', ''google''}) demoIndex
                   (baseFs, [], 0))) ''AllChaosData/Tesla'' = Some Directory
   \<and> files (fst (processEntries demoEnv ''AllChaosData'' (Some {''tesla'', ''google''}) demoIndex
                   (baseFs, [], 0))) ''AllChaosData/Google'' = Some Directory
   \<and> card ((\<lambda>e. Join ''AllChaosData'' (Name e))
             ` set (filter (selected (Some {''tesla'', ''google''})) demoIndex)) = 2
   \<and> snd (fst (processURLs demoEnv (baseFs, []) jsonURL ''AllChaosData''
                  (Some {''tesla'', ''google''})))
       = [Processing ''Tesla'', Processing ''Google'', Completed 2]
   \<and> processEntries demoEnv ''AllChaosData'' (Some {''tesla'', ''google''}) demoIndex
         (baseFs, [], 0)
       = processEntries demoEnv ''AllChaosData'' None
           [\<lparr>Name = ''Tesla'', URL = ''https://chaos/tesla.zip''\<rparr>,
            \<lparr>Name = ''Google'', URL = ''https://chaos/google.zip''\<rparr>] (baseFs, [], 0)
   \<and> processEntries demoEnv ''AllChaosData'' (Some {''tesla'', ''google''}) demoIndex
         (baseFs, [], 0)
       = processEntries demoEnv ''AllChaosData'' (Some {''tesla'', ''google''})
           [\<lparr>Name = ''Tesla'', URL = ''https://chaos/tesla.zip''\<rparr>,
            \<lparr>Name = ''Nokia'', URL = ''https://chaos/nokia.zip''\<rparr>,
            \<lparr>Name = ''Google'', URL = ''https://chaos/google.zip''\<rparr>] (baseFs, [], 0)
   \<and> files (fst (processEntries demoEnv ''AllChaosData'' (Some {''tesla'', ''google''}) demoIndex
                   (baseFs, [], 0))) ''AllChaosData/Acme'' = None
   \<and> files (fst (processEntries demoEnv ''AllChaosData'' (Some {''tesla'', ''google''}) demoIndex
                   (baseFs, [], 0))) ''AllChaosData/Nokia'' = None"
proof -
  let ?filterSet = "Some {''tesla'', ''google''}"
  let ?tesla = "\<lparr>Name = ''Tesla'', URL = ''https://chaos/tesla.zip''\<rparr>"
  let ?acme = "\<lparr>Name = ''Acme'', URL = ''https://chaos/acme.zip''\<rparr>"
  let ?nokia = "\<lparr>Name = ''Nokia'', URL = ''https://chaos/nokia.zip''\<rparr>"
  let ?google = "\<lparr>Name = ''Google'', URL = ''https://chaos/google.zip''\<rparr>"
  let ?run = "processEntries demoEnv ''AllChaosData'' ?filterSet demoIndex (baseFs, [], 0)"
  have sel: "filter (selected ?filterSet) demoIndex
               = [\<lparr>Name = ''Tesla'', URL = ''https://chaos/tesla.zip''\<rparr>,
                  \<lparr>Name = ''Google'', URL = ''https://chaos/google.zip''\<rparr>]"
    by (simp add: selected_def demoIndex_def string_eval)
  have ev: "snd ?run = ([Processing ''Tesla'', Processing ''Google''], 2)"
    by (simp add: loop_eval prog_eval path_eval os_eval demo_eval string_eval)
  then have run: "?run = (fst ?run, [Processing ''Tesla'', Processing ''Google''], 2)"
    by (simp add: prod_eq_iff)
  have g: "http_get demoEnv jsonURL = Some (Body ''[index]'')"
    "decodeIndex demoEnv (Body ''[index]'') = Some demoIndex"
    by (simp_all add: decodeIndex_def demo_eval)
  have j: "Join ''AllChaosData'' ''Tesla'' = ''AllChaosData/Tesla''"
    "Join ''AllChaosData'' ''Google'' = ''AllChaosData/Google''"
    by (simp_all add: path_eval string_eval)
  note inst = selection_and_count [where ev = demoEnv and baseDir = "''AllChaosData''"
      and filterSet = ?filterSet and entries = demoIndex and st = baseFs and out = "[]"
      and n = 0 and st' = "fst ?run" and out' = "[Processing ''Tesla'', Processing ''Google'']"
      and n' = 2 and url = jsonURL and resp = "Body ''[index]''"
      and entry = ?acme and before = "[?tesla]" and later = "[?nokia, ?google]"]
  have nf: "length (failed [Processing ''Tesla'', Processing ''Google'']) = length (failed [])"
    by simp
  note body = inst [THEN conjunct2, THEN conjunct2, THEN conjunct1, THEN mp, OF run]
  note ok = body [THEN conjunct2, THEN conjunct2, THEN mp, OF nf]
  from body have "attempted [Processing ''Tesla'', Processing ''Google'']
             = attempted [] @ map Name (filter (selected ?filterSet) demoIndex)"
    by (rule conjunct1)
  then have a: "attempted [Processing ''Tesla'', Processing ''Google'']
             = map Name (filter (selected ?filterSet) demoIndex)"
    by simp
  from ok have d: "\<forall>e \<in> set (filter (selected ?filterSet) demoIndex).
             files (fst ?run) (Join ''AllChaosData'' (Name e)) = Some Directory"
    by (rule conjunct2 [THEN conjunct1])
  from ok have c: "distinct (map (\<lambda>e. Join ''AllChaosData'' (Name e)) (filter (selected ?filterSet) demoIndex)) \<longrightarrow>
            card ((\<lambda>e. Join ''AllChaosData'' (Name e)) ` set (filter (selected ?filterSet) demoIndex))
              = length (filter (selected ?filterSet) demoIndex)"
    by (rule conjunct2 [THEN conjunct2])
  from g run have h: "http_get demoEnv jsonURL = Some (Body ''[index]'')
        \<and> decodeIndex demoEnv (Body ''[index]'') = Some demoIndex
        \<and> ?run = (fst ?run, [Processing ''Tesla'', Processing ''Google''], 2)"
    by simp
  note rest = inst [THEN conjunct2, THEN conjunct2, THEN conjunct2]
  from rest [THEN conjunct1, THEN mp, OF h]
  have p: "processURLs demoEnv (baseFs, []) jsonURL ''AllChaosData'' ?filterSet
             = ((fst ?run, [Processing ''Tesla'', Processing ''Google''] @ [Completed 2]), None)" .
  from rest [THEN conjunct2, THEN conjunct1]
  have q: "?run = processEntries demoEnv ''AllChaosData'' None [?tesla, ?google] (baseFs, [], 0)"
    by (simp add: sel)
  have unsel: "\<not> selected ?filterSet ?acme"
    by (simp add: selected_def string_eval)
  from rest [THEN conjunct2, THEN conjunct2, THEN mp, OF unsel]
  have u: "?run = processEntries demoEnv ''AllChaosData'' ?filterSet [?tesla, ?nokia, ?google]
                    (baseFs, [], 0)"
    by (simp add: demoIndex_def)
  have ab: "files (fst ?run) ''AllChaosData/Acme'' = None"
    "files (fst ?run) ''AllChaosData/Nokia'' = None"
    by (simp_all add: loop_eval prog_eval path_eval os_eval demo_eval string_eval)
  from c have c': "card ((\<lambda>e. Join ''AllChaosData'' (Name e)) ` set (filter (selected ?filterSet) demoIndex)) = 2"
    by (simp add: sel j)
  from d have d': "files (fst ?run) ''AllChaosData/Tesla'' = Some Directory"
    "files (fst ?run) ''AllChaosData/Google'' = Some Directory"
    by (simp_all add: sel j)
  from a have a': "attempted [Processing ''Tesla'', Processing ''Google''] = [''Tesla'', ''Google'']"
    "map Name (filter (selected ?filterSet) demoIndex) = [''Tesla'', ''Google'']"
    by (simp_all add: sel)
  from ev a' d' c' p have first: "snd ?run = ([Processing ''Tesla'', Processing ''Google''], 2)
   \<and> attempted [Processing ''Tesla'', Processing ''Google''] = [''Tesla'', ''Google'']
   \<and> map Name (filter (selected ?filterSet) demoIndex) = [''Tesla'', ''Google'']
   \<and> files (fst ?run) ''AllChaosData/Tesla'' = Some Directory
   \<and> files (fst ?run) ''AllChaosData/Google'' = Some Directory
   \<and> card ((\<lambda>e. Join ''AllChaosData'' (Name e)) ` set (filter (selected ?filterSet) demoIndex)) = 2
   \<and> snd (fst (processURLs demoEnv (baseFs, []) jsonURL ''AllChaosData'' ?filterSet))
       = [Processing ''Tesla'', Processing ''Google'', Completed 2]"
    by simp
  show ?thesis by (insert first q u ab, elim conjE, (intro conjI; assumption))
qed

lemma copyFiles_append:
  "copyFiles ev destPath (xs @ ys) (st, out) =
     copyFiles ev destPath ys (copyFiles ev destPath xs (st, out))"
  by (induction xs arbitrary: st out) (auto split: sum.splits rhandle.splits)

text \<open>
  Claim C1. When \<open>downloadAndUnzip\<close> fails for a selected entry, the loop of
  \<open>processURLs\<close> logs the failure and goes on with the entries after it exactly as it
  would from that state, with the count unchanged; and \<open>processURLs\<close> returns no error
  whenever the index was fetched and decoded. When a source file cannot be opened, or
  cannot be copied because it is a directory, the loop of \<open>concatenateAllTxtFiles\<close> logs
  the failure and goes on with the files after it; and \<open>concatenateAllTxtFiles\<close> returns
  no error whenever the output file could be created.
\<close>

theorem failures_are_skipped:
  "(selected filterSet entry
      \<and> processEntries ev baseDir filterSet pre (st, out, n) = (st1, out1, n1)
      \<and> downloadAndUnzip ev st1 (URL entry) (Name entry) baseDir = (st2, Some err) \<longrightarrow>
        processEntries ev baseDir filterSet (pre @ entry # post) (st, out, n)
          = processEntries ev baseDir filterSet post
              (st2, out1 @ [Processing (Name entry), FailedToProcess (Name entry) err], n1))
   \<and> (http_get ev url = Some resp \<and> decodeIndex ev resp = Some entries \<longrightarrow>
        snd (processURLs ev s url baseDir filterSet) = None)
   \<and> (copyFiles ev destPath before (ft, fout) = (ft1, fout1)
      \<and> Open ev ft1 src = Inl e \<longrightarrow>
        copyFiles ev destPath (before @ src # rest) (ft, fout)
          = copyFiles ev destPath rest (ft1, fout1 @ [FailedToOpen src (PathError e)]))
   \<and> (copyFiles ev destPath before (ft, fout) = (ft1, fout1)
      \<and> Open ev ft1 src = Inr RDir \<longrightarrow>
        copyFiles ev destPath (before @ src # rest) (ft, fout)
          = copyFiles ev destPath rest
              (ft1, fout1 @ [FailedToCopy src destPath (PathError EISDIR)]))
   \<and> (snd (Create ev (fst s) (Join outputDir ''everything.txt'')) = None \<longrightarrow>
        snd (concatenateAllTxtFiles ev s baseDir outputDir) = None)"
proof (intro conjI impI)
  assume "selected filterSet entry
      \<and> processEntries ev baseDir filterSet pre (st, out, n) = (st1, out1, n1)
      \<and> downloadAndUnzip ev st1 (URL entry) (Name entry) baseDir = (st2, Some err)"
  then show "processEntries ev baseDir filterSet (pre @ entry # post) (st, out, n)
          = processEntries ev baseDir filterSet post
              (st2, out1 @ [Processing (Name entry), FailedToProcess (Name entry) err], n1)"
    by (simp add: processEntries_append)
next
  assume "http_get ev url = Some resp \<and> decodeIndex ev resp = Some entries"
  then show "snd (processURLs ev s url baseDir filterSet) = None"
    by (simp add: processURLs_def split: prod.splits)
next
  assume "copyFiles ev destPath before (ft, fout) = (ft1, fout1) \<and> Open ev ft1 src = Inl e"
  then show "copyFiles ev destPath (before @ src # rest) (ft, fout)
          = copyFiles ev destPath rest (ft1, fout1 @ [FailedToOpen src (PathError e)])"
    by (simp add: copyFiles_append)
next
  assume "copyFiles ev destPath before (ft, fout) = (ft1, fout1) \<and> Open ev ft1 src = Inr RDir"
  then show "copyFiles ev destPath (before @ src # rest) (ft, fout)
          = copyFiles ev destPath rest
              (ft1, fout1 @ [FailedToCopy src destPath (PathError EISDIR)])"
    by (simp add: copyFiles_append)
next
  assume "snd (Create ev (fst s) (Join outputDir ''everything.txt'')) = None"
  then show "snd (concatenateAllTxtFiles ev s baseDir outputDir) = None"
    by (cases "Create ev (fst s) (Join outputDir ''everything.txt'')")
       (auto simp: concatenateAllTxtFiles_def concatenateFrom_def split: prod.splits)
qed

theorem failures_are_skipped_witness:
  "snd (processEntries demoEnv ''AllChaosData'' None demoIndex (baseFs, [], 0))
     = ([Processing ''Tesla'',
         Processing ''Acme'',
         FailedToProcess ''Acme''
           (Wrap ''error unzipping file'' (Wrap ''error opening zip file'' ErrZipFormat)),
         Processing ''Nokia'',
         FailedToProcess ''Nokia'' (Wrap ''error downloading'' ErrTransport),
         Processing ''Google''], 2)
   \<and> files (fst (processEntries demoEnv ''AllChaosData'' None demoIndex (baseFs, [], 0)))
        ''AllChaosData/Google/sub/google.txt'' = Some (Regular 0x1A4 ''google.com'')
   \<and> snd (processURLs demoEnv (baseFs, []) jsonURL ''AllChaosData'' None) = None
   \<and> findAllTxtFiles badCatFs ''AllChaosData''
       = [''AllChaosData/a/0.txt'', ''AllChaosData/a/1.txt'', ''AllChaosData/b/2.txt'']
   \<and> Open quietEnv (fst (Create quietEnv badCatFs ''everything.txt'')) ''AllChaosData/a/0.txt''
       = Inl EACCES
   \<and> snd (copyFiles quietEnv ''everything.txt''
             [''AllChaosData/a/0.txt'', ''AllChaosData/a/1.txt'', ''AllChaosData/b/2.txt'']
             (fst (Create quietEnv badCatFs ''everything.txt''), []))
       = [FailedToOpen ''AllChaosData/a/0.txt'' (PathError EACCES)]
   \<and> files (fst (copyFiles quietEnv ''everything.txt''
                    [''AllChaosData/a/0.txt'', ''AllChaosData/a/1.txt'', ''AllChaosData/b/2.txt'']
                    (fst (Create quietEnv badCatFs ''everything.txt''), []))) ''everything.txt''
       = Some (Regular 0x1A4 (''X'' @ [newline] @ ''Y'' @ [newline]))
   \<and> snd (concatenateAllTxtFiles quietEnv (badCatFs, []) ''AllChaosData'' ''.'') = None"
proof -
  let ?tesla = "\<lparr>Name = ''Tesla'', URL = ''https://chaos/tesla.zip''\<rparr>"
  let ?acme = "\<lparr>Name = ''Acme'', URL = ''https://chaos/acme.zip''\<rparr>"
  let ?post = "[\<lparr>Name = ''Nokia'', URL = ''https://chaos/nokia.zip''\<rparr>,
                \<lparr>Name = ''Google'', URL = ''https://chaos/google.zip''\<rparr>]"
  let ?err = "Wrap ''error unzipping file'' (Wrap ''error opening zip file'' ErrZipFormat)"
  let ?pre = "processEntries demoEnv ''AllChaosData'' None [?tesla] (baseFs, [], 0)"
  let ?dl = "downloadAndUnzip demoEnv (fst ?pre) (URL ?acme) (Name ?acme) ''AllChaosData''"
  let ?ft = "fst (Create quietEnv badCatFs ''everything.txt'')"
  let ?f0 = "''AllChaosData/a/0.txt''"
  let ?rest = "[''AllChaosData/a/1.txt'', ''AllChaosData/b/2.txt'']"
  have ix: "demoIndex = [?tesla] @ ?acme # ?post"
    by (simp add: demoIndex_def)
  have "snd ?pre = ([Processing ''Tesla''], 1)"
    by (simp add: loop_eval prog_eval path_eval os_eval demo_eval string_eval)
  then have pre: "?pre = (fst ?pre, [Processing ''Tesla''], 1)"
    by (simp add: prod_eq_iff)
  have "snd ?dl = Some ?err"
    by (simp add: loop_eval prog_eval path_eval os_eval demo_eval string_eval)
  then have dl: "?dl = (fst ?dl, Some ?err)"
    by (simp add: prod_eq_iff)
  have g: "http_get demoEnv jsonURL = Some (Body ''[index]'')
           \<and> decodeIndex demoEnv (Body ''[index]'') = Some demoIndex"
    by (simp add: decodeIndex_def demo_eval)
  have opn: "Open quietEnv ?ft ?f0 = Inl EACCES"
    by (simp add: path_eval os_eval demo_eval string_eval)
  have j: "Join ''.'' ''everything.txt'' = ''everything.txt''"
    by (simp add: path_eval string_eval)
  have cr: "snd (Create quietEnv (fst (badCatFs, [])) (Join ''.'' ''everything.txt'')) = None"
    by (simp add: path_eval os_eval demo_eval string_eval)
  note inst = failures_are_skipped [where ev = demoEnv and baseDir = "''AllChaosData''"
      and filterSet = None and entry = ?acme and pre = "[?tesla]" and post = ?post
      and st = baseFs and out = "[]" and n = 0 and ?st1.0 = "fst ?pre"
      and ?out1.0 = "[Processing ''Tesla'']" and ?n1.0 = 1 and ?st2.0 = "fst ?dl" and err = ?err
      and url = jsonURL and resp = "Body ''[index]''" and entries = demoIndex
      and s = "(baseFs, [])"]
  have h1: "selected None ?acme \<and> ?pre = (fst ?pre, [Processing ''Tesla''], 1)
            \<and> ?dl = (fst ?dl, Some ?err)"
    using pre dl by (simp add: selected_def)
  from inst [THEN conjunct1, THEN mp, OF h1]
  have c1: "processEntries demoEnv ''AllChaosData'' None ([?tesla] @ ?acme # ?post) (baseFs, [], 0)
              = processEntries demoEnv ''AllChaosData'' None ?post
                  (fst ?dl, [Processing ''Tesla''] @ [Processing (Name ?acme),
                     FailedToProcess (Name ?acme) ?err], 1)" .
  have c1a: "snd (processEntries demoEnv ''AllChaosData'' None demoIndex (baseFs, [], 0))
     = ([Processing ''Tesla'', Processing ''Acme'', FailedToProcess ''Acme'' ?err,
         Processing ''Nokia'',
         FailedToProcess ''Nokia'' (Wrap ''error downloading'' ErrTransport),
         Processing ''Google''], 2)"
    unfolding ix c1
    by (simp add: loop_eval prog_eval path_eval os_eval demo_eval string_eval)
  have c1b: "files (fst (processEntries demoEnv ''AllChaosData'' None demoIndex (baseFs, [], 0)))
        ''AllChaosData/Google/sub/google.txt'' = Some (Regular 0x1A4 ''google.com'')"
    unfolding ix c1
    by (simp add: loop_eval prog_eval path_eval os_eval demo_eval string_eval)
  from inst [THEN conjunct2, THEN conjunct1, THEN mp, OF g]
  have c2: "snd (processURLs demoEnv (baseFs, []) jsonURL ''AllChaosData'' None) = None" .
  have h3: "copyFiles quietEnv ''everything.txt'' [] (?ft, []) = (?ft, [])
            \<and> Open quietEnv ?ft ?f0 = Inl EACCES"
    using opn by simp
  from failures_are_skipped [where ev = quietEnv and destPath = "''everything.txt''"
      and before = "[]" and ft = ?ft and fout = "[]" and ?ft1.0 = ?ft and ?fout1.0 = "[]"
      and src = ?f0 and e = EACCES and rest = ?rest,
      THEN conjunct2, THEN conjunct2, THEN conjunct1, THEN mp, OF h3]
  have c3: "copyFiles quietEnv ''everything.txt'' ([] @ ?f0 # ?rest) (?ft, [])
              = copyFiles quietEnv ''everything.txt'' ?rest
                  (?ft, [] @ [FailedToOpen ?f0 (PathError EACCES)])" .
  have c3a: "snd (copyFiles quietEnv ''everything.txt'' (?f0 # ?rest) (?ft, []))
               = [FailedToOpen ?f0 (PathError EACCES)]"
    using c3 by (simp add: path_eval os_eval demo_eval string_eval)
  have c3b: "files (fst (copyFiles quietEnv ''everything.txt'' (?f0 # ?rest) (?ft, [])))
               ''everything.txt'' = Some (Regular 0x1A4 (''X'' @ [newline] @ ''Y'' @ [newline]))"
    using c3 by (simp add: path_eval os_eval demo_eval string_eval)
  from failures_are_skipped [where ev = quietEnv and s = "(badCatFs, [])" and outputDir = "''.''"
      and baseDir = "''AllChaosData''",
      THEN conjunct2, THEN conjunct2, THEN conjunct2, THEN conjunct2, THEN mp, OF cr]
  have c4: "snd (concatenateAllTxtFiles quietEnv (badCatFs, []) ''AllChaosData'' ''.'') = None" .
  have fa: "findAllTxtFiles badCatFs ''AllChaosData'' = ?f0 # ?rest"
    by (simp add: cat_eval path_eval demo_eval string_eval)
  from c1a c1b c2 fa opn c3a c3b c4 show ?thesis by simp
qed

section \<open>The concatenator\<close>

lemma put_put: "put (put st p a) p b = put st p b"
  by (simp add: put_def)

lemma bytesOf_put_other: "q \<noteq> p \<Longrightarrow> bytesOf (put st p n) q = bytesOf st q"
  by (simp add: bytesOf_def put_def)

text \<open>When every source can be read and none of them is the output file, the loop
  appends each source's bytes and a newline, in the order of the list.\<close>

lemma copyFiles_readable:
  assumes "\<forall>p \<in> set fs. p \<noteq> dest \<and> (\<exists>m d. files st p = Some (Regular m d) \<and> mayRead ev m)"
    and "files st dest = Some (Regular md dd)"
  shows "copyFiles ev dest fs (st, out)
           = (put st dest (Regular md (dd @ concat (map (\<lambda>p. bytesOf st p @ [newline]) fs))), out)"
  using assms
proof (induction fs arbitrary: st dd)
  case Nil
  then have "put st dest (Regular md dd) = st"
    by (simp add: put_def fun_upd_idem)
  then show ?case by simp
next
  case (Cons src rest)
  from Cons.prems(1) obtain m d where ne: "src \<noteq> dest"
    and f: "files st src = Some (Regular m d)" and rd: "mayRead ev m"
    by auto
  define st' where "st' = put st dest (Regular md (dd @ d @ [newline]))"
  from f rd have opn: "Open ev st src = Inr (RData d)" by (simp add: Open_def)
  from Cons.prems(2) have w: "WriteBytes (WriteBytes st dest d) dest [newline] = st'"
    by (simp add: WriteBytes_def put_def st'_def)
  have same: "files st' p = files st p" if "p \<noteq> dest" for p
    using that by (simp add: st'_def put_def)
  from Cons.prems(1) same
  have a: "\<forall>p \<in> set rest. p \<noteq> dest \<and> (\<exists>m d. files st' p = Some (Regular m d) \<and> mayRead ev m)"
    by simp
  have b: "files st' dest = Some (Regular md (dd @ d @ [newline]))"
    by (simp add: st'_def put_def)
  from Cons.prems(1) have "map (\<lambda>p. bytesOf st' p @ [newline]) rest
          = map (\<lambda>p. bytesOf st p @ [newline]) rest"
    by (intro map_cong) (auto simp: st'_def bytesOf_put_other)
  with Cons.IH [OF a b]
  have "copyFiles ev dest rest (st', out)
          = (put st' dest (Regular md ((dd @ d @ [newline])
                @ concat (map (\<lambda>p. bytesOf st p @ [newline]) rest))), out)"
    by simp
  moreover have "bytesOf st src = d" using f by (simp add: bytesOf_def)
  ultimately show ?case
    using opn w by (simp add: st'_def put_put)
qed

text \<open>
  Claim C7. When every enumerated text file is a regular file that the process may
  read, none of them is the output file, and the output file can be created, then
  \<open>concatenateAllTxtFiles\<close> returns no error, reports the output file, and the output
  file holds the bytes of the enumerated files in the order of the enumeration, each
  followed by one newline. For two enumerated files holding \<open>X\<close> and \<open>Y\<close> it holds
  \<open>X\<close>, newline, \<open>Y\<close>, newline.
\<close>

theorem concatenation_roundtrip:
  "(\<forall>p \<in> set (findAllTxtFiles st baseDir).
       p \<noteq> Join outputDir ''everything.txt''
       \<and> (\<exists>m d. files st p = Some (Regular m d) \<and> mayRead ev m))
   \<and> snd (Create ev st (Join outputDir ''everything.txt'')) = None \<longrightarrow>
     snd (concatenateAllTxtFiles ev (st, out) baseDir outputDir) = None
     \<and> snd (fst (concatenateAllTxtFiles ev (st, out) baseDir outputDir))
         = out @ [Created (Join outputDir ''everything.txt'')]
     \<and> (\<exists>m. files (fst (fst (concatenateAllTxtFiles ev (st, out) baseDir outputDir)))
               (Join outputDir ''everything.txt'')
             = Some (Regular m (concat (map (\<lambda>p. bytesOf st p @ [newline])
                                         (findAllTxtFiles st baseDir)))))
     \<and> (findAllTxtFiles st baseDir = [p1, p2] \<and> bytesOf st p1 = X \<and> bytesOf st p2 = Y \<longrightarrow>
          (\<exists>m. files (fst (fst (concatenateAllTxtFiles ev (st, out) baseDir outputDir)))
                  (Join outputDir ''everything.txt'')
                = Some (Regular m (X @ [newline] @ Y @ [newline]))))"
proof
  define dest where "dest = Join outputDir ''everything.txt''"
  define found where "found = findAllTxtFiles st baseDir"
  assume "(\<forall>p \<in> set (findAllTxtFiles st baseDir).
       p \<noteq> Join outputDir ''everything.txt''
       \<and> (\<exists>m d. files st p = Some (Regular m d) \<and> mayRead ev m))
   \<and> snd (Create ev st (Join outputDir ''everything.txt'')) = None"
  then have src: "\<forall>p \<in> set found. p \<noteq> dest \<and> (\<exists>m d. files st p = Some (Regular m d) \<and> mayRead ev m)"
    and cr: "snd (Create ev st dest) = None"
    by (simp_all add: dest_def found_def)
  obtain st1 where c: "Create ev st dest = (st1, None)"
    using cr by (cases "Create ev st dest") auto
  then obtain m where st1: "st1 = put st dest (Regular m [])"
    unfolding Create_def by (auto dest: OpenFile_trunc_ok)
  have same: "files st1 p = files st p" if "p \<noteq> dest" for p
    using that by (simp add: st1 put_def)
  from src same
  have a: "\<forall>p \<in> set found. p \<noteq> dest \<and> (\<exists>m d. files st1 p = Some (Regular m d) \<and> mayRead ev m)"
    by simp
  have b: "files st1 dest = Some (Regular m [])" by (simp add: st1 put_def)
  from src have "map (\<lambda>p. bytesOf st1 p @ [newline]) found = map (\<lambda>p. bytesOf st p @ [newline]) found"
    by (intro map_cong) (auto simp: st1 bytesOf_put_other)
  with copyFiles_readable [OF a b, of out]
  have cp: "copyFiles ev dest found (st1, out)
              = (put st1 dest (Regular m (concat (map (\<lambda>p. bytesOf st p @ [newline]) found))), out)"
    by simp
  from c cp
  have res: "concatenateAllTxtFiles ev (st, out) baseDir outputDir
          = ((put st1 dest (Regular m (concat (map (\<lambda>p. bytesOf st p @ [newline]) found))),
              out @ [Created dest]), None)"
    by (simp add: concatenateAllTxtFiles_def concatenateFrom_def dest_def found_def)
  show "snd (concatenateAllTxtFiles ev (st, out) baseDir outputDir) = None
     \<and> snd (fst (concatenateAllTxtFiles ev (st, out) baseDir outputDir))
         = out @ [Created (Join outputDir ''everything.txt'')]
     \<and> (\<exists>m. files (fst (fst (concatenateAllTxtFiles ev (st, out) baseDir outputDir)))
               (Join outputDir ''everything.txt'')
             = Some (Regular m (concat (map (\<lambda>p. bytesOf st p @ [newline])
                                         (findAllTxtFiles st baseDir)))))
     \<and> (findAllTxtFiles st baseDir = [p1, p2] \<and> bytesOf st p1 = X \<and> bytesOf st p2 = Y \<longrightarrow>
          (\<exists>m. files (fst (fst (concatenateAllTxtFiles ev (st, out) baseDir outputDir)))
                  (Join outputDir ''everything.txt'')
                = Some (Regular m (X @ [newline] @ Y @ [newline]))))"
    unfolding res by (auto simp: put_def dest_def found_def)
qed

theorem concatenation_roundtrip_witness:
  "findAllTxtFiles catFs ''AllChaosData'' = [''AllChaosData/a/1.txt'', ''AllChaosData/b/2.txt'']
   \<and> bytesOf catFs ''AllChaosData/a/1.txt'' = ''X''
   \<and> bytesOf catFs ''AllChaosData/b/2.txt'' = ''Y''
   \<and> snd (concatenateAllTxtFiles quietEnv (catFs, []) ''AllChaosData'' ''.'') = None
   \<and> (\<exists>m. files (fst (fst (concatenateAllTxtFiles quietEnv (catFs, []) ''AllChaosData'' ''.'')))
             ''everything.txt''
           = Some (Regular m (''X'' @ [newline] @ ''Y'' @ [newline])))"
proof -
  have fa: "findAllTxtFiles catFs ''AllChaosData''
              = [''AllChaosData/a/1.txt'', ''AllChaosData/b/2.txt'']"
    by (simp add: cat_eval path_eval demo_eval string_eval)
  have j: "Join ''.'' ''everything.txt'' = ''everything.txt''"
    by (simp add: path_eval string_eval)
  have b: "bytesOf catFs ''AllChaosData/a/1.txt'' = ''X''" "bytesOf catFs ''AllChaosData/b/2.txt'' = ''Y''"
    by (simp_all add: bytesOf_def demo_eval)
  have h: "(\<forall>p \<in> set (findAllTxtFiles catFs ''AllChaosData'').
       p \<noteq> Join ''.'' ''everything.txt''
       \<and> (\<exists>m d. files catFs p = Some (Regular m d) \<and> mayRead quietEnv m))
   \<and> snd (Create quietEnv catFs (Join ''.'' ''everything.txt'')) = None"
    unfolding fa j by (simp add: os_eval path_eval demo_eval string_eval)
  note r = concatenation_roundtrip [where st = catFs and baseDir = "''AllChaosData''"
      and outputDir = "''.''" and ev = quietEnv and out = "[]"
      and ?p1.0 = "''AllChaosData/a/1.txt''" and ?p2.0 = "''AllChaosData/b/2.txt''"
      and X = "''X''" and Y = "''Y''", THEN mp, OF h]
  from r have r1: "snd (concatenateAllTxtFiles quietEnv (catFs, []) ''AllChaosData'' ''.'') = None"
    by (rule conjunct1)
  from fa b have h2: "findAllTxtFiles catFs ''AllChaosData''
                        = [''AllChaosData/a/1.txt'', ''AllChaosData/b/2.txt'']
                      \<and> bytesOf catFs ''AllChaosData/a/1.txt'' = ''X''
                      \<and> bytesOf catFs ''AllChaosData/b/2.txt'' = ''Y''"
    by simp
  from r [THEN conjunct2, THEN conjunct2, THEN conjunct2, THEN mp, OF h2]
  have r2: "\<exists>m. files (fst (fst (concatenateAllTxtFiles quietEnv (catFs, []) ''AllChaosData'' ''.'')))
                  (Join ''.'' ''everything.txt'')
                = Some (Regular m (''X'' @ [newline] @ ''Y'' @ [newline]))" .
  from fa b r1 r2 show ?thesis by (simp add: j)
qed

lemma walkNames_append:
  "walkNames path (xs @ ys) found =
     (case walkNames path xs found of
        (found1, Some e) \<Rightarrow> (found1, Some e)
      | (found1, None) \<Rightarrow> walkNames path ys found1)"
  by (induction xs arbitrary: found) (auto split: prod.splits option.splits)

text \<open>The walk only ever appends to what it has found.\<close>

lemma walk_extends:
  "\<exists>more. fst (walk path t found) = found @ more"
  "\<exists>more. fst (walkNames path ts found) = found @ more"
proof (induction path t found and path ts found rule: walk_walkNames.induct)
  case (6 path c cs found)
  then show ?case
    by (cases "walk (Join path (nodeName c)) c found"; cases "snd (walk (Join path (nodeName c)) c found)")
       (auto split: prod.splits option.splits)
qed (auto simp: visit_def)

text \<open>
  Claim C9. When the walk of the root directory gets through the names before some
  name without an error and meets an error at or below that name, \<open>filepath.Walk\<close>
  stops there: \<open>findAllTxtFiles\<close> returns what was found up to the error, which does
  not depend on the names after it, and drops the error. \<open>concatenateAllTxtFiles\<close> then
  does exactly what it does for that list: the error of the walk is not among its
  arguments, so nothing of it is logged, and it returns no error when the output file
  can be created. The same holds wherever the walk meets its error, the root included.
\<close>

theorem walk_error_is_silent:
  "(tree st root = Some (DirN name (pre @ bad # post))
    \<and> walkNames root pre [] = (found1, None)
    \<and> walk (Join root (nodeName bad)) bad found1 = (found2, Some e) \<longrightarrow>
      Walk st root = (found2, Some e)
      \<and> findAllTxtFiles st root = found2
      \<and> (\<exists>more. found2 = found1 @ more)
      \<and> concatenateAllTxtFiles ev (st, out) root outputDir
          = concatenateFrom ev (st, out) found2 outputDir
      \<and> (snd (Create ev st (Join outputDir ''everything.txt'')) = None \<longrightarrow>
           snd (concatenateAllTxtFiles ev (st, out) root outputDir) = None))
   \<and> (Walk st root = (found, Some e') \<longrightarrow>
        findAllTxtFiles st root = found
        \<and> concatenateAllTxtFiles ev (st, out) root outputDir
            = concatenateFrom ev (st, out) found outputDir
        \<and> (snd (Create ev st (Join outputDir ''everything.txt'')) = None \<longrightarrow>
             snd (concatenateAllTxtFiles ev (st, out) root outputDir) = None))"
proof (intro conjI)
  have r: "snd (Create ev st (Join outputDir ''everything.txt'')) = None \<longrightarrow>
          snd (concatenateAllTxtFiles ev (st, out) root outputDir) = None"
    by (cases "Create ev st (Join outputDir ''everything.txt'')")
       (auto simp: concatenateAllTxtFiles_def concatenateFrom_def split: prod.splits)
  show "tree st root = Some (DirN name (pre @ bad # post))
    \<and> walkNames root pre [] = (found1, None)
    \<and> walk (Join root (nodeName bad)) bad found1 = (found2, Some e) \<longrightarrow>
      Walk st root = (found2, Some e)
      \<and> findAllTxtFiles st root = found2
      \<and> (\<exists>more. found2 = found1 @ more)
      \<and> concatenateAllTxtFiles ev (st, out) root outputDir
          = concatenateFrom ev (st, out) found2 outputDir
      \<and> (snd (Create ev st (Join outputDir ''everything.txt'')) = None \<longrightarrow>
           snd (concatenateAllTxtFiles ev (st, out) root outputDir) = None)"
  proof
    assume a: "tree st root = Some (DirN name (pre @ bad # post))
      \<and> walkNames root pre [] = (found1, None)
      \<and> walk (Join root (nodeName bad)) bad found1 = (found2, Some e)"
    then have w: "Walk st root = (found2, Some e)"
      by (simp add: Walk_def visit_def walkNames_append)
    then have f: "findAllTxtFiles st root = found2"
      by (simp add: findAllTxtFiles_def)
    from a walk_extends(1) [of "Join root (nodeName bad)" bad found1]
    have m: "\<exists>more. found2 = found1 @ more" by simp
    from f have c: "concatenateAllTxtFiles ev (st, out) root outputDir
           = concatenateFrom ev (st, out) found2 outputDir"
      by (simp add: concatenateAllTxtFiles_def)
    from w f m c r show "Walk st root = (found2, Some e)
      \<and> findAllTxtFiles st root = found2
      \<and> (\<exists>more. found2 = found1 @ more)
      \<and> concatenateAllTxtFiles ev (st, out) root outputDir
          = concatenateFrom ev (st, out) found2 outputDir
      \<and> (snd (Create ev st (Join outputDir ''everything.txt'')) = None \<longrightarrow>
           snd (concatenateAllTxtFiles ev (st, out) root outputDir) = None)"
      by simp
  qed
  show "Walk st root = (found, Some e') \<longrightarrow>
        findAllTxtFiles st root = found
        \<and> concatenateAllTxtFiles ev (st, out) root outputDir
            = concatenateFrom ev (st, out) found outputDir
        \<and> (snd (Create ev st (Join outputDir ''everything.txt'')) = None \<longrightarrow>
             snd (concatenateAllTxtFiles ev (st, out) root outputDir) = None)"
    using r by (auto simp: findAllTxtFiles_def concatenateAllTxtFiles_def)
qed

theorem walk_error_is_silent_witness:
  "Walk lockedFs ''AllChaosData'' = ([''AllChaosData/a/1.txt''], Some EACCES)
   \<and> findAllTxtFiles lockedFs ''AllChaosData'' = [''AllChaosData/a/1.txt'']
   \<and> files lockedFs ''AllChaosData/b/2.txt'' = Some (Regular 0x1A4 ''Y'')
   \<and> concatenateAllTxtFiles quietEnv (lockedFs, []) ''AllChaosData'' ''.''
       = concatenateFrom quietEnv (lockedFs, []) [''AllChaosData/a/1.txt''] ''.''
   \<and> snd (concatenateAllTxtFiles quietEnv (lockedFs, []) ''AllChaosData'' ''.'') = None
   \<and> snd (fst (concatenateAllTxtFiles quietEnv (lockedFs, []) ''AllChaosData'' ''.''))
       = [Created ''everything.txt'']
   \<and> files (fst (fst (concatenateAllTxtFiles quietEnv (lockedFs, []) ''AllChaosData'' ''.'')))
        ''everything.txt'' = Some (Regular 0x1A4 (''X'' @ [newline]))"
proof -
  let ?pre = "[DirN ''a'' [FileN ''1.txt'', FileN ''notes.md'']]"
  let ?bad = "DirErrN ''aa'' EACCES"
  let ?post = "[DirN ''b'' [FileN ''2.txt'']]"
  have h: "tree lockedFs ''AllChaosData'' = Some (DirN ''AllChaosData'' (?pre @ ?bad # ?post))
   \<and> walkNames ''AllChaosData'' ?pre [] = ([''AllChaosData/a/1.txt''], None)
   \<and> walk (Join ''AllChaosData'' (nodeName ?bad)) ?bad [''AllChaosData/a/1.txt'']
       = ([''AllChaosData/a/1.txt''], Some EACCES)"
    by (simp add: cat_eval path_eval demo_eval string_eval)
  note r = walk_error_is_silent [where st = lockedFs and root = "''AllChaosData''"
      and name = "''AllChaosData''" and pre = ?pre and bad = ?bad and post = ?post
      and ?found1.0 = "[''AllChaosData/a/1.txt'']" and ?found2.0 = "[''AllChaosData/a/1.txt'']"
      and e = EACCES and ev = quietEnv and out = "[]" and outputDir = "''.''",
      THEN conjunct1, THEN mp, OF h]
  have cr: "snd (Create quietEnv lockedFs (Join ''.'' ''everything.txt'')) = None"
    by (simp add: path_eval os_eval demo_eval string_eval)
  from r have r1: "Walk lockedFs ''AllChaosData'' = ([''AllChaosData/a/1.txt''], Some EACCES)"
    by (rule conjunct1)
  from r have r2: "findAllTxtFiles lockedFs ''AllChaosData'' = [''AllChaosData/a/1.txt'']"
    by (rule conjunct2 [THEN conjunct1])
  from r have r3: "concatenateAllTxtFiles quietEnv (lockedFs, []) ''AllChaosData'' ''.''
       = concatenateFrom quietEnv (lockedFs, []) [''AllChaosData/a/1.txt''] ''.''"
    by (rule conjunct2 [THEN conjunct2, THEN conjunct2, THEN conjunct1])
  from r [THEN conjunct2, THEN conjunct2, THEN conjunct2, THEN conjunct2, THEN mp, OF cr]
  have r4: "snd (concatenateAllTxtFiles quietEnv (lockedFs, []) ''AllChaosData'' ''.'') = None" .
  have e1: "snd (fst (concatenateFrom quietEnv (lockedFs, []) [''AllChaosData/a/1.txt''] ''.''))
       = [Created ''everything.txt'']"
    by (simp add: cat_eval path_eval os_eval demo_eval string_eval)
  have e2: "files (fst (fst (concatenateFrom quietEnv (lockedFs, []) [''AllChaosData/a/1.txt''] ''.'')))
        ''everything.txt'' = Some (Regular 0x1A4 (''X'' @ [newline]))"
    by (simp add: cat_eval path_eval os_eval demo_eval string_eval)
  have f: "files lockedFs ''AllChaosData/b/2.txt'' = Some (Regular 0x1A4 ''Y'')"
    by (simp add: demo_eval)
  from r1 r2 f r3 r4 e1 e2 show ?thesis by simp
qed

section \<open>The choice of the Selection Set in \<open>main\<close>\<close>

text \<open>
  Claim C10. When the comma-separated list is not empty, the Selection Set is the set
  parsed from it, and \<open>main\<close> does the same whatever the name-list path and the
  download-all flag are: the file is not read. When the list or the path is not empty,
  \<open>main\<close> does the same whatever the download-all flag is.
\<close>

theorem selection_precedence:
  "(companies fl \<noteq> [] \<longrightarrow>
      chooseSet ev s fl
        = ((snd s @ [SelectedCompanies (parseCompanyNames (companies fl))],
            Some (parseCompanyNames (companies fl))), None)
      \<and> main ev s (fl\<lparr>inputFile := i, allFlag := a\<rparr>) = main ev s fl)
   \<and> (companies fl \<noteq> [] \<or> inputFile fl \<noteq> [] \<longrightarrow>
        chooseSet ev s (fl\<lparr>allFlag := a\<rparr>) = chooseSet ev s fl
        \<and> main ev s (fl\<lparr>allFlag := a\<rparr>) = main ev s fl)"
  by (auto simp: main_def chooseSet_def)

theorem selection_precedence_witness:
  "files mainFs ''missing.txt'' = None
   \<and> snd (main demoEnv (mainFs, [])
             \<lparr>inputFile = ''missing.txt'', companies = [], allFlag = True, helpFlag = False\<rparr>)
       = Fatal ''Failed to read input file'' (PathError ENOENT)
   \<and> main demoEnv (mainFs, [])
        \<lparr>inputFile = ''missing.txt'', companies = ''Tesla'', allFlag = True, helpFlag = False\<rparr>
       = main demoEnv (mainFs, [])
           \<lparr>inputFile = [], companies = ''Tesla'', allFlag = False, helpFlag = False\<rparr>
   \<and> snd (main demoEnv (mainFs, [])
             \<lparr>inputFile = ''missing.txt'', companies = ''Tesla'', allFlag = True, helpFlag = False\<rparr>)
       = Returned
   \<and> snd (fst (main demoEnv (mainFs, [])
             \<lparr>inputFile = ''missing.txt'', companies = ''Tesla'', allFlag = True, helpFlag = False\<rparr>))
       = [SelectedCompanies {''tesla''}, Processing ''Tesla'', Completed 1,
          Created ''everything.txt'']
   \<and> files (fst (fst (main demoEnv (mainFs, [])
             \<lparr>inputFile = ''missing.txt'', companies = ''Tesla'', allFlag = True, helpFlag = False\<rparr>)))
        ''everything.txt'' = Some (Regular 0x1A4 (''tesla.com'' @ [newline]))
   \<and> main demoEnv (mainFs, [])
        \<lparr>inputFile = ''companies.txt'', companies = [], allFlag = True, helpFlag = False\<rparr>
       = main demoEnv (mainFs, [])
           \<lparr>inputFile = ''companies.txt'', companies = [], allFlag = False, helpFlag = False\<rparr>"
proof -
  let ?fl = "\<lparr>inputFile = [], companies = ''Tesla'', allFlag = False, helpFlag = False\<rparr>"
  let ?fl2 = "\<lparr>inputFile = ''companies.txt'', companies = [], allFlag = False, helpFlag = False\<rparr>"
  have m: "files mainFs ''missing.txt'' = None"
    by (simp add: demo_eval)
  have fatal: "snd (main demoEnv (mainFs, [])
             \<lparr>inputFile = ''missing.txt'', companies = [], allFlag = True, helpFlag = False\<rparr>)
       = Fatal ''Failed to read input file'' (PathError ENOENT)"
    by (simp add: main_eval path_eval os_eval demo_eval string_eval)
  have c: "companies ?fl \<noteq> []" by simp
  from selection_precedence [where fl = ?fl and ev = demoEnv and s = "(mainFs, [])"
      and i = "''missing.txt''" and a = True, THEN conjunct1, THEN mp, OF c]
  have e1: "main demoEnv (mainFs, [])
        \<lparr>inputFile = ''missing.txt'', companies = ''Tesla'', allFlag = True, helpFlag = False\<rparr>
       = main demoEnv (mainFs, []) ?fl"
    by simp
  have c2: "companies ?fl2 \<noteq> [] \<or> inputFile ?fl2 \<noteq> []" by simp
  from selection_precedence [where fl = ?fl2 and ev = demoEnv and s = "(mainFs, [])"
      and a = True, THEN conjunct2, THEN mp, OF c2]
  have e2: "main demoEnv (mainFs, [])
        \<lparr>inputFile = ''companies.txt'', companies = [], allFlag = True, helpFlag = False\<rparr>
       = main demoEnv (mainFs, []) ?fl2"
    by simp
  have r: "snd (main demoEnv (mainFs, []) ?fl) = Returned"
    "snd (fst (main demoEnv (mainFs, []) ?fl))
       = [SelectedCompanies {''tesla''}, Processing ''Tesla'', Completed 1,
          Created ''everything.txt'']"
    "files (fst (fst (main demoEnv (mainFs, []) ?fl))) ''everything.txt''
       = Some (Regular 0x1A4 (''tesla.com'' @ [newline]))"
    by (simp_all add: main_eval cat_eval loop_eval prog_eval path_eval os_eval demo_eval
        string_eval)
  from m fatal e1 e2 r show ?thesis by simp
qed

end
